theory Spec2Isabelle
  imports Complex_Main
begin

section \<open>Common data\<close>

text \<open>
  Python's \<open>datetime\<close> has microsecond resolution: a point in time is the number of
  microseconds since the epoch, a \<open>timedelta\<close> a number of microseconds.  Every call of
  \<open>datetime.utcnow()\<close> in the source is an explicit argument of the model.
\<close>

type_synonym datetime = int
type_synonym timedelta = int

definition seconds :: "int \<Rightarrow> timedelta" where
  "seconds n = n * 1000000"

definition minutes :: "int \<Rightarrow> timedelta" where
  "minutes n = seconds (60 * n)"

definition hours :: "int \<Rightarrow> timedelta" where
  "hours n = seconds (3600 * n)"

text \<open>A raised exception, carried as a value.\<close>

datatype exc = Exception string | ZeroDivisionError

text \<open>
  The pieces of a formatted log message: the literal parts of the f-string and the
  values interpolated into it, in order.
\<close>

datatype fragment = Lit string | Num int | Flt real | Exc exc | NL

text \<open>One call of a logger method: the method, its title argument and its message.\<close>

datatype log_call =
    log_info "fragment list" "fragment list"
  | log_warning "fragment list" "fragment list"
  | log_error "fragment list" exc
  | log_critical "fragment list" "fragment list"
  | log_system_event "fragment list" "fragment list"
  | log_successful_post nat

text \<open>\<open>if self.logger: await self.logger.f(...)\<close>: nothing is emitted without a logger.\<close>

definition emit :: "bool \<Rightarrow> log_call \<Rightarrow> log_call list" where
  "emit has_logger c = (if has_logger then [c] else [])"

section \<open>The content queue (modules/database)\<close>

text \<open>
  The keys of the JSON payload that the pipeline reads; \<open>None\<close> is an absent key.
\<close>

record meme =
  mtype :: "string option"
  meme_text :: "string option"
  image_path :: "string option"
  caption :: "string option"
  text_top :: "string option"
  text_bottom :: "string option"
  panels :: "string list option"

record ContentQueue =
  row_id :: nat
  meme_data :: meme
  priority :: real
  created_at :: datetime
  scheduled_at :: "datetime option"
  status :: string

text \<open>
  The table \<open>content_queue\<close>: its rows in the order in which the store yields them to
  a scan, and the next value of the autoincrement key.  The source never orders a
  query by \<open>created_at\<close> or by \<open>id\<close>, so nothing ties this order to either.
\<close>

record database =
  content_queue :: "ContentQueue list"
  next_id :: nat

definition is_pending :: "ContentQueue \<Rightarrow> bool" where
  "is_pending r = (status r = ''pending'')"

text \<open>\<open>ContentQueue(meme_data=..., priority=...)\<close>, added, committed and refreshed.\<close>

definition add_to_queue :: "database \<Rightarrow> meme \<Rightarrow> real \<Rightarrow> datetime \<Rightarrow> ContentQueue \<times> database" where
  "add_to_queue db m p now =
     (let item = \<lparr>row_id = next_id db, meme_data = m, priority = p, created_at = now,
                  scheduled_at = None, status = ''pending''\<rparr>
      in (item, db\<lparr>content_queue := content_queue db @ [item], next_id := next_id db + 1\<rparr>))"

text \<open>
  \<open>ORDER BY priority DESC\<close>: the only sort key is the priority.  SQL leaves the order
  of rows with equal keys to the store; here they stay in the order of the scan.
\<close>

definition order_by_desc_priority :: "ContentQueue list \<Rightarrow> ContentQueue list" where
  "order_by_desc_priority rows = sort_key (\<lambda>r. - priority r) rows"

text \<open>\<open>scalar_one_or_none()\<close> on a result of at most one row.\<close>

definition scalar_one_or_none ::
  "'a list \<Rightarrow> 'a option" where
  "scalar_one_or_none rows = (case rows of [] \<Rightarrow> None | r # _ \<Rightarrow> Some r)"

definition get_next_from_queue :: "database \<Rightarrow> ContentQueue option" where
  "get_next_from_queue db =
     scalar_one_or_none (take 1 (order_by_desc_priority (filter is_pending (content_queue db))))"

definition get_queue_size :: "database \<Rightarrow> int" where
  "get_queue_size db = int (length (filter is_pending (content_queue db)))"

definition update_queue_item_status :: "database \<Rightarrow> nat \<Rightarrow> string \<Rightarrow> database" where
  "update_queue_item_status db i s =
     db\<lparr>content_queue := map (\<lambda>r. if row_id r = i then r\<lparr>status := s\<rparr> else r) (content_queue db)\<rparr>"

text \<open>
  \<open>UPDATE content_queue SET status = 'expired' WHERE status = 'pending' AND
  created_at < cutoff\<close>; the result is \<open>rowcount\<close> and the updated table.
\<close>

definition is_stale :: "datetime \<Rightarrow> ContentQueue \<Rightarrow> bool" where
  "is_stale cutoff r = (is_pending r \<and> created_at r < cutoff)"

definition expire_old_queue_items :: "database \<Rightarrow> int \<Rightarrow> datetime \<Rightarrow> int \<times> database" where
  "expire_old_queue_items db max_age_hours now =
     (let cutoff = now - hours max_age_hours
      in (int (length (filter (is_stale cutoff) (content_queue db))),
          db\<lparr>content_queue :=
               map (\<lambda>r. if is_stale cutoff r then r\<lparr>status := ''expired''\<rparr> else r) (content_queue db)\<rparr>))"

section \<open>The queue manager (modules/scheduler/queue_manager.py)\<close>

record QueueManager =
  min_size :: int
  max_size :: int
  qm_logger :: bool

definition is_full :: "QueueManager \<Rightarrow> database \<Rightarrow> bool" where
  "is_full qm db = (get_queue_size db \<ge> max_size qm)"

definition needs_refill :: "QueueManager \<Rightarrow> database \<Rightarrow> bool" where
  "needs_refill qm db = (get_queue_size db < min_size qm)"

text \<open>The result of \<open>add_meme\<close>, the store after it and the logger calls it made.\<close>

definition add_meme ::
  "QueueManager \<Rightarrow> database \<Rightarrow> meme \<Rightarrow> real \<Rightarrow> datetime \<Rightarrow> bool \<times> database \<times> log_call list" where
  "add_meme qm db m p now =
     (if is_full qm db
      then (False, db,
            emit (qm_logger qm)
              (log_warning [Lit ''Queue Full'']
                 [Lit ''Queue at max capacity ('', Num (max_size qm), Lit ''). Meme not added.'']))
      else (True, snd (add_to_queue db m p now), []))"

text \<open>A sequence of \<open>add_meme\<close> calls, one after the other; the results are dropped.\<close>

fun add_memes :: "QueueManager \<Rightarrow> database \<Rightarrow> (meme \<times> real \<times> datetime) list \<Rightarrow> database" where
  "add_memes qm db [] = db"
| "add_memes qm db ((m, p, now) # rest) = add_memes qm (fst (snd (add_meme qm db m p now))) rest"

definition cleanup_expired :: "QueueManager \<Rightarrow> database \<Rightarrow> datetime \<Rightarrow> int \<times> database \<times> log_call list" where
  "cleanup_expired qm db now =
     (let (count, db') = expire_old_queue_items db 48 now
      in (count, db',
          if count > 0
          then emit (qm_logger qm)
                 (log_system_event [Lit ''Queue Cleanup'']
                    [Lit ''Expired '', Num count, Lit '' old memes from queue''])
          else []))"

section \<open>Circuit breaker and fallback chain (modules/error_handler/fallback_strategies.py)\<close>

record APIFallbackStrategy =
  fs_logger :: bool
  failure_counts :: "string \<rightharpoonup> int"
  last_failure :: "string \<rightharpoonup> datetime"
  circuit_open :: "string \<rightharpoonup> datetime"
  circuit_breaker_threshold :: int
  circuit_breaker_timeout :: int

definition APIFallbackStrategy_init :: "bool \<Rightarrow> APIFallbackStrategy" where
  "APIFallbackStrategy_init lg =
     \<lparr>fs_logger = lg, failure_counts = Map.empty, last_failure = Map.empty,
      circuit_open = Map.empty, circuit_breaker_threshold = 5, circuit_breaker_timeout = 300\<rparr>"

definition get_failure_count :: "APIFallbackStrategy \<Rightarrow> string \<Rightarrow> int" where
  "get_failure_count st service = (case failure_counts st service of None \<Rightarrow> 0 | Some n \<Rightarrow> n)"

text \<open>
  \<open>record_failure\<close> reads the clock twice: \<open>t1\<close> is stored as the last failure,
  \<open>t2\<close> as the moment the circuit opened.
\<close>

definition record_failure :: "APIFallbackStrategy \<Rightarrow> string \<Rightarrow> datetime \<Rightarrow> datetime \<Rightarrow> APIFallbackStrategy" where
  "record_failure st service t1 t2 =
     (let st1 = st\<lparr>failure_counts := (failure_counts st)(service \<mapsto> get_failure_count st service + 1),
                   last_failure := (last_failure st)(service \<mapsto> t1)\<rparr>
      in if get_failure_count st1 service \<ge> circuit_breaker_threshold st1
         then st1\<lparr>circuit_open := (circuit_open st1)(service \<mapsto> t2)\<rparr>
         else st1)"

definition record_success :: "APIFallbackStrategy \<Rightarrow> string \<Rightarrow> APIFallbackStrategy" where
  "record_success st service =
     st\<lparr>failure_counts := (failure_counts st)(service \<mapsto> 0),
        circuit_open := (circuit_open st)(service := None)\<rparr>"

text \<open>
  \<open>elapsed = (utcnow() - opened).total_seconds()\<close> is compared with the timeout in
  seconds; on microseconds that is \<open>now - opened \<ge> seconds timeout\<close>.
\<close>

definition is_available :: "APIFallbackStrategy \<Rightarrow> string \<Rightarrow> datetime \<Rightarrow> bool" where
  "is_available st service now =
     (case circuit_open st service of
        None \<Rightarrow> True
      | Some opened \<Rightarrow> now - opened \<ge> seconds (circuit_breaker_timeout st))"

text \<open>A sequence of \<open>record_failure\<close> calls, each with its two clock readings.\<close>

fun record_failures :: "APIFallbackStrategy \<Rightarrow> string \<Rightarrow> (datetime \<times> datetime) list \<Rightarrow> APIFallbackStrategy" where
  "record_failures st service [] = st"
| "record_failures st service ((t1, t2) # ts) = record_failures (record_failure st service t1 t2) service ts"

text \<open>
  An awaited callable (\<open>primary_func\<close>, a fallback, a recovery action) is modelled by
  what awaiting it yields: \<open>Inl e\<close> when it raises \<open>e\<close>, \<open>Inr v\<close> when it returns \<open>v\<close>.

  The loop over \<open>enumerate(fallback_funcs)\<close>, from index \<open>i\<close>: the result of the first
  fallback that returns, or \<open>None\<close> when the list is exhausted, with the logger calls.
\<close>

fun try_fallbacks :: "bool \<Rightarrow> string \<Rightarrow> nat \<Rightarrow> (exc + 'a) list \<Rightarrow> 'a option \<times> log_call list" where
  "try_fallbacks lg service_name i [] = (None, [])"
| "try_fallbacks lg service_name i (fallback # rest) =
     (case fallback of
        Inr result \<Rightarrow>
          (Some result,
           emit lg (log_info [Lit ''Fallback Successful'']
                      [Lit ''Service: '', Lit service_name, NL,
                       Lit ''Fallback #'', Num (int i + 1), Lit '' worked'']))
      | Inl e \<Rightarrow>
          (let (r, logs) = try_fallbacks lg service_name (i + 1) rest
           in (r, emit lg (log_warning [Lit ''Fallback #'', Num (int i + 1), Lit '' Failed'']
                             [Lit ''Service: '', Lit service_name, NL, Lit ''Error: '', Exc e])
                  @ logs)))"

text \<open>The part of \<open>execute_with_fallback\<close> after the primary attempt.\<close>

definition fallback_phase ::
  "APIFallbackStrategy \<Rightarrow> log_call list \<Rightarrow> (exc + 'a) list \<Rightarrow> string
     \<Rightarrow> 'a option \<times> APIFallbackStrategy \<times> log_call list" where
  "fallback_phase st logs fallback_funcs service_name =
     (case try_fallbacks (fs_logger st) service_name 0 fallback_funcs of
        (Some result, l) \<Rightarrow> (Some result, st, logs @ l)
      | (None, l) \<Rightarrow>
          (None, st,
           logs @ l @
           emit (fs_logger st)
             (log_critical [Lit ''All Fallbacks Failed'']
                [Lit ''Service: '', Lit service_name, NL,
                 Lit ''Primary + '', Num (int (length fallback_funcs)), Lit '' fallbacks all failed.'', NL,
                 Lit ''Total failures: '', Num (get_failure_count st service_name)])))"

text \<open>
  The result (\<open>None\<close> is Python's \<open>None\<close> of the last line), the strategy's state after
  the call and the logger calls.  \<open>t0\<close> is the clock read by \<open>is_available\<close>, \<open>t1\<close> and
  \<open>t2\<close> those read by \<open>record_failure\<close>.
\<close>

definition execute_with_fallback ::
  "APIFallbackStrategy \<Rightarrow> (exc + 'a) \<Rightarrow> (exc + 'a) list \<Rightarrow> string \<Rightarrow> datetime \<Rightarrow> datetime \<Rightarrow> datetime
     \<Rightarrow> 'a option \<times> APIFallbackStrategy \<times> log_call list" where
  "execute_with_fallback st primary_func fallback_funcs service_name t0 t1 t2 =
     (if is_available st service_name t0
      then (case primary_func of
              Inr result \<Rightarrow> (Some result, record_success st service_name, [])
            | Inl e \<Rightarrow>
                fallback_phase (record_failure st service_name t1 t2)
                  (emit (fs_logger st)
                     (log_warning [Lit service_name, Lit '' Primary Failed'']
                        [Lit ''Error: '', Exc e, NL, Lit ''Trying fallbacks...'']))
                  fallback_funcs service_name)
      else fallback_phase st [] fallback_funcs service_name)"

section \<open>Rate limits (modules/error_handler/fallback_strategies.py)\<close>

text \<open>One entry of \<open>_limits\<close>; \<open>None\<close> is an absent key.\<close>

record limit_cfg =
  rpm :: "int option"
  rpd :: "int option"
  window_minutes :: "int option"

record usage_entry =
  requests :: "datetime list"
  daily_count :: int
  daily_reset :: datetime

record RateLimitHandler =
  rl_logger :: bool
  usage :: "string \<rightharpoonup> usage_entry"
  limits :: "string \<rightharpoonup> limit_cfg"

definition RateLimitHandler_init :: "bool \<Rightarrow> RateLimitHandler" where
  "RateLimitHandler_init lg =
     \<lparr>rl_logger = lg, usage = Map.empty,
      limits = [''groq'' \<mapsto> \<lparr>rpm = Some 30, rpd = Some 14400, window_minutes = Some 1\<rparr>,
                ''telegram'' \<mapsto> \<lparr>rpm = Some 30, rpd = None, window_minutes = Some 1\<rparr>,
                ''huggingface'' \<mapsto> \<lparr>rpm = Some 10, rpd = None, window_minutes = Some 1\<rparr>]\<rparr>"

text \<open>\<open>d.get(key, default)\<close>.\<close>

definition get_or :: "'a option \<Rightarrow> 'a \<Rightarrow> 'a" where
  "get_or v d = (case v of None \<Rightarrow> d | Some x \<Rightarrow> x)"

definition record_request :: "RateLimitHandler \<Rightarrow> string \<Rightarrow> datetime \<Rightarrow> RateLimitHandler" where
  "record_request h service now =
     (let entry0 = get_or (usage h service) \<lparr>requests = [], daily_count = 0, daily_reset = now\<rparr>;
          entry1 = entry0\<lparr>requests := requests entry0 @ [now], daily_count := daily_count entry0 + 1\<rparr>;
          entry2 = (if now - daily_reset entry1 > seconds 86400
                    then entry1\<lparr>daily_count := 1, daily_reset := now\<rparr> else entry1);
          cutoff = now - minutes 5;
          entry3 = entry2\<lparr>requests := filter (\<lambda>r. r > cutoff) (requests entry2)\<rparr>
      in h\<lparr>usage := (usage h)(service \<mapsto> entry3)\<rparr>)"

text \<open>
  \<open>(len(recent) / rpm) * 100\<close>.  The quotient is taken as the exact rational; a zero
  \<open>rpm\<close> raises.  For the limits of \<open>__init__\<close> (30 and 10) the float the source
  computes is on the same side of 70 and of 90 as the exact value, for every count.
\<close>

definition get_usage_percentage :: "RateLimitHandler \<Rightarrow> string \<Rightarrow> datetime \<Rightarrow> exc + real" where
  "get_usage_percentage h service now =
     (case (limits h service, usage h service) of
        (Some limit, Some entry) \<Rightarrow>
          (let window = minutes (get_or (window_minutes limit) 1);
               cutoff = now - window;
               recent = filter (\<lambda>r. r > cutoff) (requests entry);
               rpm = get_or (rpm limit) 30
           in if rpm = 0 then Inl ZeroDivisionError
              else Inr ((real (length recent) / real_of_int rpm) * 100))
      | _ \<Rightarrow> Inr 0)"

text \<open>
  The logger calls of \<open>wait_if_needed\<close> and the arguments of its \<open>asyncio.sleep\<close>
  calls, in seconds; \<open>Inl\<close> when it raises.
\<close>

definition wait_if_needed :: "RateLimitHandler \<Rightarrow> string \<Rightarrow> datetime \<Rightarrow> exc + (log_call list \<times> int list)" where
  "wait_if_needed h service now =
     (case get_usage_percentage h service now of
        Inl e \<Rightarrow> Inl e
      | Inr usage_pct \<Rightarrow>
          if usage_pct \<ge> 90
          then (let wait_time = 60
                in Inr (emit (rl_logger h)
                          (log_warning [Lit ''Rate Limit Throttling'']
                             [Lit ''Service: '', Lit service, NL,
                              Lit ''Usage: '', Flt usage_pct, Lit ''%'', NL,
                              Lit ''Waiting '', Num wait_time, Lit ''s...'']),
                        [wait_time]))
          else if usage_pct \<ge> 70 then Inr ([], [5])
          else Inr ([], []))"

section \<open>Recovery (modules/error_handler/recovery.py)\<close>

record RecoveryManager =
  rm_logger :: bool
  consecutive_failures :: "string \<rightharpoonup> int"
  recovery_actions :: "string \<rightharpoonup> (exc + unit)"
  max_failures :: int

definition RecoveryManager_init :: "bool \<Rightarrow> RecoveryManager" where
  "RecoveryManager_init lg =
     \<lparr>rm_logger = lg, consecutive_failures = Map.empty, recovery_actions = Map.empty, max_failures = 5\<rparr>"

definition register_recovery :: "RecoveryManager \<Rightarrow> string \<Rightarrow> (exc + unit) \<Rightarrow> RecoveryManager" where
  "register_recovery rm component recovery_func =
     rm\<lparr>recovery_actions := (recovery_actions rm)(component \<mapsto> recovery_func)\<rparr>"

definition recovery_get_failure_count :: "RecoveryManager \<Rightarrow> string \<Rightarrow> int" where
  "recovery_get_failure_count rm component = get_or (consecutive_failures rm component) 0"

definition recovery_record_failure :: "RecoveryManager \<Rightarrow> string \<Rightarrow> RecoveryManager" where
  "recovery_record_failure rm component =
     rm\<lparr>consecutive_failures :=
          (consecutive_failures rm)(component \<mapsto> recovery_get_failure_count rm component + 1)\<rparr>"

definition recovery_record_success :: "RecoveryManager \<Rightarrow> string \<Rightarrow> RecoveryManager" where
  "recovery_record_success rm component =
     rm\<lparr>consecutive_failures := (consecutive_failures rm)(component \<mapsto> 0)\<rparr>"

definition attempt_recovery :: "RecoveryManager \<Rightarrow> string \<Rightarrow> bool \<times> RecoveryManager \<times> log_call list" where
  "attempt_recovery rm component =
     (let failures = recovery_get_failure_count rm component
      in if failures < max_failures rm then (True, rm, [])
         else
           (let triggered =
                  emit (rm_logger rm)
                    (log_warning [Lit ''Recovery Triggered'']
                       [Lit ''Component: '', Lit component, NL,
                        Lit ''Consecutive failures: '', Num failures, NL,
                        Lit ''Attempting recovery...''])
            in case recovery_actions rm component of
                 None \<Rightarrow>
                   (False, rm,
                    triggered @
                    emit (rm_logger rm)
                      (log_critical [Lit ''No Recovery Available'']
                         [Lit ''Component: '', Lit component, NL,
                          Lit ''No recovery function registered.'', NL,
                          Lit ''Manual intervention required.'']))
               | Some recovery_func \<Rightarrow>
                   (case recovery_func of
                      Inr _ \<Rightarrow>
                        (True, recovery_record_success rm component,
                         triggered @
                         emit (rm_logger rm)
                           (log_info [Lit ''Recovery Successful'']
                              [Lit ''Component: '', Lit component, Lit '' recovered'']))
                    | Inl e \<Rightarrow>
                        (False, rm,
                         triggered @
                         emit (rm_logger rm)
                           (log_critical [Lit ''Recovery Failed'']
                              [Lit ''Component: '', Lit component, NL,
                               Lit ''Error: '', Exc e, NL,
                               Lit ''Manual intervention required.''])))))"

section \<open>The posting pipeline (modules/publisher/post_logic.py)\<close>

text \<open>
  What the pipeline's collaborators yield when awaited during one \<open>publish_next\<close>:
  the renderer, the publisher and \<open>save_post\<close> either raise or return.  A status
  write can raise as well (the store is a network service); the body of the \<open>try\<close>
  makes at most one on each path, and the handler makes one.
\<close>

record collaborators =
  generate :: "meme \<Rightarrow> exc + string option"
  publish_text :: "string \<Rightarrow> exc + int option"
  publish_image :: "string \<Rightarrow> string \<Rightarrow> exc + int option"
  save_post :: "int \<Rightarrow> meme \<Rightarrow> exc + nat"
  write_in_try :: "exc option"
  write_in_handler :: "exc option"

text \<open>What \<open>publish_next\<close> does to the store and to the logger, in order.\<close>

datatype event = SetStatus nat string | Log log_call

definition write_status :: "exc option \<Rightarrow> database \<Rightarrow> nat \<Rightarrow> string \<Rightarrow> exc + database" where
  "write_status outcome db i s =
     (case outcome of Some e \<Rightarrow> Inl e | None \<Rightarrow> Inr (update_queue_item_status db i s))"

text \<open>Python's truth value of a \<open>str | None\<close> and of an \<open>int | None\<close>.\<close>

definition truthy_str :: "string option \<Rightarrow> bool" where
  "truthy_str v = (case v of None \<Rightarrow> False | Some x \<Rightarrow> x \<noteq> [])"

definition truthy_int :: "int option \<Rightarrow> bool" where
  "truthy_int v = (case v of None \<Rightarrow> False | Some n \<Rightarrow> n \<noteq> 0)"

fun join :: "string \<Rightarrow> string list \<Rightarrow> string" where
  "join sep [] = []"
| "join sep [x] = x"
| "join sep (x # y # ys) = x @ sep @ join sep (y # ys)"

text \<open>The emoji of the fallback texts, as UTF-8.\<close>

definition emojis :: "string list" where
  "emojis = [[CHR 0xF0, CHR 0x9F, CHR 0xA7, CHR 0xA0], [CHR 0xF0, CHR 0x9F, CHR 0x92, CHR 0xA1],
             [CHR 0xE2, CHR 0x9C, CHR 0xA8], [CHR 0xF0, CHR 0x9F, CHR 0x9A, CHR 0x80]]"

definition build_fallback_text :: "meme \<Rightarrow> string option" where
  "build_fallback_text m =
     (let mt = get_or (mtype m) []
      in if mt = ''drake''
         then (let top = get_or (text_top m) []; bottom = get_or (text_bottom m) []
               in if top \<noteq> [] \<and> bottom \<noteq> []
                  then Some ([CHR 0xE2, CHR 0x9D, CHR 0x8C] @ '' '' @ top @ [CHR 0x0A] @
                             [CHR 0xE2, CHR 0x9C, CHR 0x85] @ '' '' @ bottom)
                  else None)
         else if mt = ''expanding_brain''
         then Some (join [CHR 0x0A]
                      (map (\<lambda>(e, p). e @ '' '' @ p) (zip emojis (take 4 (get_or (panels m) [])))))
         else if mt = ''two_buttons''
         then (let ps = get_or (panels m) []
               in if length ps \<ge> 2
                  then Some ([CHR 0xF0, CHR 0x9F, CHR 0x94, CHR 0xB4] @ '' '' @ ps ! 0 @ [CHR 0x0A] @
                             [CHR 0xF0, CHR 0x9F, CHR 0x94, CHR 0xB5] @ '' '' @ ps ! 1 @ [CHR 0x0A, CHR 0x0A] @
                             [CHR 0xF0, CHR 0x9F, CHR 0x98, CHR 0xB0] @ '' ...'')
                  else None)
         else None)"

text \<open>
  The body of the \<open>try\<close>.  \<open>Inr (result, store, events)\<close> when it reaches a \<open>return\<close>;
  \<open>Inl (e, store, events)\<close> when \<open>e\<close> is raised, with the store and the events as
  they are at that moment (every status write commits on its own).
\<close>

type_synonym outcome = "(exc \<times> database \<times> event list) + (bool \<times> database \<times> event list)"

text \<open>From \<open>if message_id:\<close> on.\<close>

definition after_publish ::
  "bool \<Rightarrow> collaborators \<Rightarrow> database \<Rightarrow> ContentQueue \<Rightarrow> int option \<Rightarrow> outcome" where
  "after_publish lg env db item message_id =
     (if truthy_int message_id
      then (case write_status (write_in_try env) db (row_id item) ''published'' of
              Inl e \<Rightarrow> Inl (e, db, [])
            | Inr db1 \<Rightarrow>
                (case save_post env (the message_id) (meme_data item) of
                   Inl e \<Rightarrow> Inl (e, db1, [SetStatus (row_id item) ''published''])
                 | Inr post_id \<Rightarrow>
                     Inr (True, db1,
                          SetStatus (row_id item) ''published'' #
                          map Log (emit lg (log_successful_post post_id)))))
      else (case write_status (write_in_try env) db (row_id item) ''rejected'' of
              Inl e \<Rightarrow> Inl (e, db, [])
            | Inr db1 \<Rightarrow> Inr (False, db1, [SetStatus (row_id item) ''rejected''])))"

definition try_body :: "bool \<Rightarrow> collaborators \<Rightarrow> database \<Rightarrow> ContentQueue \<Rightarrow> outcome" where
  "try_body lg env db item =
     (let m = meme_data item; meme_type = get_or (mtype m) ''text_only''
      in if meme_type = ''text_only''
         then (let txt = get_or (meme_text m) []
               in if txt = []
                  then (case write_status (write_in_try env) db (row_id item) ''rejected'' of
                          Inl e \<Rightarrow> Inl (e, db, [])
                        | Inr db1 \<Rightarrow> Inr (False, db1, [SetStatus (row_id item) ''rejected'']))
                  else (case publish_text env txt of
                          Inl e \<Rightarrow> Inl (e, db, [])
                        | Inr message_id \<Rightarrow> after_publish lg env db item message_id))
         else (case (if truthy_str (image_path m) then Inr (image_path m) else generate env m) of
                 Inl e \<Rightarrow> Inl (e, db, [])
               | Inr path \<Rightarrow>
                   if truthy_str path
                   then (case publish_image env (the path) (get_or (caption m) []) of
                           Inl e \<Rightarrow> Inl (e, db, [])
                         | Inr message_id \<Rightarrow> after_publish lg env db item message_id)
                   else (let fallback_text = build_fallback_text m
                         in if truthy_str fallback_text
                            then (case publish_text env (the fallback_text) of
                                    Inl e \<Rightarrow> Inl (e, db, [])
                                  | Inr message_id \<Rightarrow> after_publish lg env db item message_id)
                            else after_publish lg env db item None)))"

text \<open>
  \<open>publish_next\<close>: \<open>Inr (result, store, events)\<close> when it returns, \<open>Inl e\<close> when the
  handler's own status write raises and \<open>e\<close> leaves the function.
\<close>

definition publish_next ::
  "bool \<Rightarrow> collaborators \<Rightarrow> database \<Rightarrow> exc + (bool \<times> database \<times> event list)" where
  "publish_next lg env db =
     (case get_next_from_queue db of
        None \<Rightarrow>
          Inr (False, db,
               map Log (emit lg (log_warning [Lit ''Queue Empty''] [Lit ''No memes in queue to publish.''])))
      | Some item \<Rightarrow>
          (case try_body lg env db item of
             Inr r \<Rightarrow> Inr r
           | Inl (e, db1, evs) \<Rightarrow>
               (case write_status (write_in_handler env) db1 (row_id item) ''rejected'' of
                  Inl e' \<Rightarrow> Inl e'
                | Inr db2 \<Rightarrow>
                    Inr (False, db2,
                         evs @ SetStatus (row_id item) ''rejected'' #
                         map Log (emit lg (log_error [Lit ''Publishing Pipeline Failed''] e))))))"

text \<open>The status of the rows with a given key.\<close>

definition statuses_of :: "database \<Rightarrow> nat \<Rightarrow> string list" where
  "statuses_of db i = map status (filter (\<lambda>r. row_id r = i) (content_queue db))"

section \<open>Example data\<close>

definition text_meme :: "string \<Rightarrow> meme" where
  "text_meme t =
     \<lparr>mtype = Some ''text_only'', meme_text = Some t, image_path = None, caption = None,
      text_top = None, text_bottom = None, panels = None\<rparr>"

text \<open>Two pending items of priority 8: \<open>item_A\<close> created at 1000, \<open>item_B\<close> at 2000.\<close>

definition item_A :: ContentQueue where
  "item_A = \<lparr>row_id = 1, meme_data = text_meme ''a'', priority = 8, created_at = 1000,
             scheduled_at = None, status = ''pending''\<rparr>"

definition item_B :: ContentQueue where
  "item_B = \<lparr>row_id = 2, meme_data = text_meme ''b'', priority = 8, created_at = 2000,
             scheduled_at = None, status = ''pending''\<rparr>"

definition item_C :: ContentQueue where
  "item_C = \<lparr>row_id = 3, meme_data = text_meme ''c'', priority = 5, created_at = 500,
             scheduled_at = None, status = ''published''\<rparr>"

definition db_BA :: database where
  "db_BA = \<lparr>content_queue = [item_B, item_A], next_id = 3\<rparr>"

definition db_CAB :: database where
  "db_CAB = \<lparr>content_queue = [item_C, item_A, item_B], next_id = 4\<rparr>"

definition db_empty :: database where
  "db_empty = \<lparr>content_queue = [], next_id = 1\<rparr>"

definition qm_small :: QueueManager where
  "qm_small = \<lparr>min_size = 0, max_size = 1, qm_logger = True\<rparr>"

definition db_CAB_expired :: database where
  "db_CAB_expired = \<lparr>content_queue = [item_C, item_A\<lparr>status := ''expired''\<rparr>, item_B], next_id = 4\<rparr>"

text \<open>
  A handler with the limits of \<open>__init__\<close> and \<open>n\<close> requests of \<open>groq\<close> recorded at
  second 100.
\<close>

definition handler_with :: "nat \<Rightarrow> RateLimitHandler" where
  "handler_with n =
     (RateLimitHandler_init False)
       \<lparr>usage := [''groq'' \<mapsto> \<lparr>requests = replicate n (seconds 100), daily_count = int n,
                                daily_reset = 0\<rparr>]\<rparr>"

text \<open>
  A fresh recovery manager after five recorded failures of the component \<open>db\<close>.
\<close>

definition rm_failed :: "bool \<Rightarrow> RecoveryManager" where
  "rm_failed lg =
     recovery_record_failure (recovery_record_failure (recovery_record_failure
       (recovery_record_failure (recovery_record_failure (RecoveryManager_init lg) ''db'') ''db'')
          ''db'') ''db'') ''db''"

text \<open>The top-severity logger calls.\<close>

definition is_critical :: "log_call \<Rightarrow> bool" where
  "is_critical c = (case c of log_critical _ _ \<Rightarrow> True | _ \<Rightarrow> False)"

text \<open>A strategy with a logger after five failures of \<open>groq\<close>: its circuit is open since 10.\<close>

definition st_open :: APIFallbackStrategy where
  "st_open = record_failures (APIFallbackStrategy_init True) ''groq'' [(1, 2), (3, 4), (5, 6), (7, 8), (9, 10)]"

text \<open>
  Collaborators that all succeed, a pending drake meme without an image, and the table
  \<open>db_CAB\<close> after \<open>item_A\<close> was rejected.
\<close>

definition env_ok :: collaborators where
  "env_ok = \<lparr>generate = (\<lambda>m. Inr None), publish_text = (\<lambda>t. Inr (Some 42)),
             publish_image = (\<lambda>p c. Inr (Some 43)), save_post = (\<lambda>mid m. Inr 7),
             write_in_try = None, write_in_handler = None\<rparr>"

definition item_D :: ContentQueue where
  "item_D = \<lparr>row_id = 4,
             meme_data = \<lparr>mtype = Some ''drake'', meme_text = None, image_path = None, caption = None,
                          text_top = Some ''old'', text_bottom = Some ''new'', panels = None\<rparr>,
             priority = 9, created_at = 3000, scheduled_at = None, status = ''pending''\<rparr>"

definition db_D :: database where
  "db_D = \<lparr>content_queue = [item_D], next_id = 5\<rparr>"

definition db_CAB_rejected :: database where
  "db_CAB_rejected = \<lparr>content_queue = [item_C, item_A\<lparr>status := ''rejected''\<rparr>, item_B], next_id = 4\<rparr>"

section \<open>Properties of the content queue\<close>

lemma scalar_take1_sort_Some:
  assumes "scalar_one_or_none (take 1 (sort_key f xs)) = Some r"
  shows "r \<in> set xs \<and> (\<forall>x\<in>set xs. f r \<le> f x)"
proof -
  obtain ys where ys: "sort_key f xs = r # ys"
    using assms by (cases "sort_key f xs") (auto simp: scalar_one_or_none_def)
  have "r \<in> set (sort_key f xs)" using ys by simp
  then have m: "r \<in> set xs" by simp
  have "sorted (map f (sort_key f xs))" by (rule sorted_sort_key)
  then have "\<forall>y\<in>set ys. f r \<le> f y" using ys by simp
  then have "\<forall>x\<in>set (sort_key f xs). f r \<le> f x" using ys by auto
  then show ?thesis using m by simp
qed

lemma scalar_take1_sort_None:
  "scalar_one_or_none (take 1 (sort_key f xs)) = None \<longleftrightarrow> xs = []"
proof (cases "sort_key f xs")
  case Nil
  then have "length (sort_key f xs) = 0" by simp
  then have "xs = []" by simp
  then show ?thesis by (simp add: scalar_one_or_none_def)
next
  case (Cons a list)
  then have "length (sort_key f xs) \<noteq> 0" by simp
  then have "xs \<noteq> []" by auto
  then show ?thesis using Cons by (simp add: scalar_one_or_none_def)
qed

text \<open>
  C1 (as amended).  \<open>get_next_from_queue\<close> returns nothing exactly when no row is
  pending; otherwise it returns a row of the table that is pending and whose priority
  is the maximum over the pending rows.  The query has no second sort key: which of
  several rows of maximal priority is returned is not decided by \<open>created_at\<close>.
\<close>

theorem get_next_from_queue_max_priority:
  "(get_next_from_queue db = None \<longleftrightarrow> (\<forall>r \<in> set (content_queue db). status r \<noteq> ''pending'')) \<and>
   (\<forall>r. get_next_from_queue db = Some r \<longrightarrow>
      r \<in> set (content_queue db) \<and> status r = ''pending'' \<and>
      (\<forall>r' \<in> set (content_queue db). status r' = ''pending'' \<longrightarrow> priority r' \<le> priority r))"
proof (intro conjI allI impI)
  show "get_next_from_queue db = None \<longleftrightarrow> (\<forall>r \<in> set (content_queue db). status r \<noteq> ''pending'')"
    unfolding get_next_from_queue_def order_by_desc_priority_def scalar_take1_sort_None
    by (simp add: filter_empty_conv is_pending_def)
next
  fix r assume "get_next_from_queue db = Some r"
  then have h: "r \<in> set (filter is_pending (content_queue db)) \<and>
     (\<forall>x\<in>set (filter is_pending (content_queue db)). - priority r \<le> - priority x)"
    unfolding get_next_from_queue_def order_by_desc_priority_def
    by (rule scalar_take1_sort_Some)
  then show "r \<in> set (content_queue db)" by simp
  from h show "status r = ''pending''" by (simp add: is_pending_def)
  from h show "\<forall>r' \<in> set (content_queue db). status r' = ''pending'' \<longrightarrow> priority r' \<le> priority r"
    by (simp add: is_pending_def)
qed

text \<open>
  The amended C1 at a table of three rows: the published row is skipped, and the
  result is a pending row of priority 8, the maximum.
\<close>

theorem get_next_from_queue_max_priority_witness:
  "get_next_from_queue db_CAB = Some item_A \<and> item_A \<in> set (content_queue db_CAB) \<and>
   status item_A = ''pending'' \<and> priority item_B \<le> priority item_A \<and>
   get_next_from_queue db_empty \<noteq> Some item_A"
proof -
  have e: "get_next_from_queue db_CAB = Some item_A"
    by (simp add: get_next_from_queue_def order_by_desc_priority_def scalar_one_or_none_def
        is_pending_def db_CAB_def item_A_def item_B_def item_C_def)
  have n: "get_next_from_queue db_empty = None"
    using get_next_from_queue_max_priority [of db_empty] by (simp add: db_empty_def)
  have b: "item_B \<in> set (content_queue db_CAB) \<and> status item_B = ''pending''"
    by (simp add: db_CAB_def item_B_def)
  show ?thesis
    using get_next_from_queue_max_priority [of db_CAB] e n b by auto
qed

text \<open>
  C1 as stated fails: with \<open>item_B\<close> before \<open>item_A\<close> in the store's order, both
  pending with priority 8, the query returns \<open>item_B\<close>, created after \<open>item_A\<close>.
\<close>

theorem get_next_from_queue_created_at_counterexample:
  "status item_A = ''pending'' \<and> status item_B = ''pending'' \<and>
   priority item_A = priority item_B \<and> created_at item_A < created_at item_B \<and>
   get_next_from_queue db_BA = Some item_B"
  by (simp add: get_next_from_queue_def order_by_desc_priority_def scalar_one_or_none_def
      is_pending_def db_BA_def item_A_def item_B_def)

lemma add_meme_size_le:
  "get_queue_size db \<le> max_size qm \<Longrightarrow>
   get_queue_size (fst (snd (add_meme qm db m p now))) \<le> max_size qm"
  by (auto simp: add_meme_def is_full_def add_to_queue_def get_queue_size_def is_pending_def Let_def)

lemma add_memes_size_le:
  "get_queue_size db \<le> max_size qm \<Longrightarrow> get_queue_size (add_memes qm db calls) \<le> max_size qm"
proof (induction calls arbitrary: db)
  case Nil
  then show ?case by simp
next
  case (Cons c calls)
  obtain m p now where c: "c = (m, p, now)" by (cases c) auto
  have "get_queue_size (fst (snd (add_meme qm db m p now))) \<le> max_size qm"
    using Cons.prems by (rule add_meme_size_le)
  then show ?case using Cons.IH c by simp
qed

text \<open>
  C4.  An \<open>add_meme\<close> with the pending count at or above \<open>max_size\<close> returns false and
  leaves the store as it was; below \<open>max_size\<close> it returns true and the table gains one
  row, with status pending, so the pending count grows by one; and a pending count that
  is at most \<open>max_size\<close> stays so after any sequence of \<open>add_meme\<close> calls.
\<close>

theorem add_meme_capacity:
  "(get_queue_size db \<ge> max_size qm \<longrightarrow>
      fst (add_meme qm db m p now) = False \<and> fst (snd (add_meme qm db m p now)) = db) \<and>
   (get_queue_size db < max_size qm \<longrightarrow>
      fst (add_meme qm db m p now) = True \<and>
      content_queue (fst (snd (add_meme qm db m p now))) =
        content_queue db @ [\<lparr>row_id = next_id db, meme_data = m, priority = p, created_at = now,
                              scheduled_at = None, status = ''pending''\<rparr>] \<and>
      get_queue_size (fst (snd (add_meme qm db m p now))) = get_queue_size db + 1) \<and>
   (get_queue_size db \<le> max_size qm \<longrightarrow> get_queue_size (add_memes qm db calls) \<le> max_size qm)"
proof (intro conjI impI)
  assume "max_size qm \<le> get_queue_size db"
  then show "fst (add_meme qm db m p now) = False" by (simp add: add_meme_def is_full_def)
next
  assume "max_size qm \<le> get_queue_size db"
  then show "fst (snd (add_meme qm db m p now)) = db" by (simp add: add_meme_def is_full_def)
next
  assume "get_queue_size db < max_size qm"
  then show "fst (add_meme qm db m p now) = True" by (simp add: add_meme_def is_full_def)
next
  assume "get_queue_size db < max_size qm"
  then show "content_queue (fst (snd (add_meme qm db m p now))) =
        content_queue db @ [\<lparr>row_id = next_id db, meme_data = m, priority = p, created_at = now,
                              scheduled_at = None, status = ''pending''\<rparr>]"
    by (simp add: add_meme_def is_full_def add_to_queue_def Let_def)
next
  assume "get_queue_size db < max_size qm"
  then show "get_queue_size (fst (snd (add_meme qm db m p now))) = get_queue_size db + 1"
    by (simp add: add_meme_def is_full_def add_to_queue_def Let_def get_queue_size_def is_pending_def)
next
  assume "get_queue_size db \<le> max_size qm"
  then show "get_queue_size (add_memes qm db calls) \<le> max_size qm" by (rule add_memes_size_le)
qed

text \<open>
  C4 at a queue manager of capacity 1: the first add to the empty store is accepted,
  the second, to the store it leaves, is refused, and after three adds in a row one
  item is pending.
\<close>

theorem add_meme_capacity_witness:
  "get_queue_size db_empty < max_size qm_small \<and>
   fst (add_meme qm_small db_empty (text_meme ''x'') 2 10) = True \<and>
   get_queue_size (fst (snd (add_meme qm_small db_empty (text_meme ''x'') 2 10))) = 1 \<and>
   get_queue_size db_BA \<ge> max_size qm_small \<and>
   fst (add_meme qm_small db_BA (text_meme ''y'') 3 20) = False \<and>
   fst (snd (add_meme qm_small db_BA (text_meme ''y'') 3 20)) = db_BA \<and>
   get_queue_size
     (add_memes qm_small db_empty
        [(text_meme ''x'', 2, 10), (text_meme ''y'', 3, 20), (text_meme ''z'', 9, 30)]) \<le> 1"
proof -
  have e: "get_queue_size db_empty = 0"
    by (simp add: get_queue_size_def db_empty_def)
  have f: "get_queue_size db_BA = 2"
    by (simp add: get_queue_size_def db_BA_def is_pending_def item_A_def item_B_def)
  have m: "max_size qm_small = 1" by (simp add: qm_small_def)
  show ?thesis
    using add_meme_capacity [of qm_small db_empty "text_meme ''x''" 2 10
        "[(text_meme ''x'', 2, 10), (text_meme ''y'', 3, 20), (text_meme ''z'', 9, 30)]"]
      add_meme_capacity [of qm_small db_BA "text_meme ''y''" 3 20 "[]"] e f m
    by simp
qed

lemma map_stale_id:
  "\<forall>r\<in>set rows. \<not> is_stale c r \<Longrightarrow>
   map (\<lambda>r. if is_stale c r then r\<lparr>status := ''expired''\<rparr> else r) rows = rows"
  by (induction rows) auto

lemma no_stale_noop:
  "\<forall>r\<in>set (content_queue db). \<not> is_stale (now - hours h) r \<Longrightarrow>
   expire_old_queue_items db h now = (0, db)"
  by (simp add: expire_old_queue_items_def Let_def map_stale_id filter_False)

lemma pending_count_after:
  "length (filter is_pending (map (\<lambda>r. if is_stale c r then r\<lparr>status := ''expired''\<rparr> else r) rows))
     + length (filter (is_stale c) rows)
   = length (filter is_pending rows)"
  by (induction rows) (auto simp: is_stale_def is_pending_def)

text \<open>
  C8.  \<open>expire_old_queue_items\<close> turns exactly the rows that are pending and older than
  the cutoff into expired rows and leaves every other row as it is; it returns their
  number, which is the drop of the pending count.  A second call at the same time
  returns 0 and changes nothing, and so does any later call for which no row that was
  pending and young enough at the first call is older than the new cutoff.
  \<open>cleanup_expired\<close> is this operation at 48 hours.
\<close>

theorem expire_old_queue_items_idempotent:
  assumes "expire_old_queue_items db h now = (n, db')"
  shows "n = get_queue_size db - get_queue_size db' \<and>
     length (content_queue db') = length (content_queue db) \<and>
     (\<forall>i < length (content_queue db).
           content_queue db' ! i =
             (if status (content_queue db ! i) = ''pending'' \<and> created_at (content_queue db ! i) < now - hours h
              then (content_queue db ! i)\<lparr>status := ''expired''\<rparr> else content_queue db ! i)) \<and>
     n = int (card {i. i < length (content_queue db) \<and> status (content_queue db ! i) = ''pending'' \<and>
                       created_at (content_queue db ! i) < now - hours h}) \<and>
     expire_old_queue_items db' h now = (0, db') \<and>
     ((\<forall>r\<in>set (content_queue db). status r = ''pending'' \<longrightarrow> created_at r < now2 - hours h2 \<longrightarrow> created_at r < now - hours h)
          \<longrightarrow> expire_old_queue_items db' h2 now2 = (0, db')) \<and>
     fst (cleanup_expired qm db now48) = fst (expire_old_queue_items db 48 now48) \<and>
     fst (snd (cleanup_expired qm db now48)) = snd (expire_old_queue_items db 48 now48)"
proof -
  let ?c = "now - hours h"
  let ?f = "\<lambda>r. if is_stale ?c r then r\<lparr>status := ''expired''\<rparr> else r"
  have n: "n = int (length (filter (is_stale ?c) (content_queue db)))"
    and db': "db' = db\<lparr>content_queue := map ?f (content_queue db)\<rparr>"
    using assms by (simp_all add: expire_old_queue_items_def Let_def)
  have 1: "n = get_queue_size db - get_queue_size db'"
    using pending_count_after[of ?c "content_queue db"] by (simp add: n db' get_queue_size_def)
  have 2: "length (content_queue db') = length (content_queue db)" by (simp add: db')
  have 3: "\<forall>i < length (content_queue db).
           content_queue db' ! i =
             (if status (content_queue db ! i) = ''pending'' \<and> created_at (content_queue db ! i) < now - hours h
              then (content_queue db ! i)\<lparr>status := ''expired''\<rparr> else content_queue db ! i)"
    by (simp add: db' is_stale_def is_pending_def)
  have ns: "\<forall>r\<in>set (content_queue db'). \<not> is_stale ?c r"
    by (auto simp: db' is_stale_def is_pending_def)
  then have 4: "expire_old_queue_items db' h now = (0, db')" by (rule no_stale_noop)
  have 5: "(\<forall>r\<in>set (content_queue db). status r = ''pending'' \<longrightarrow> created_at r < now2 - hours h2 \<longrightarrow> created_at r < now - hours h)
          \<longrightarrow> expire_old_queue_items db' h2 now2 = (0, db')"
  proof
    assume a: "\<forall>r\<in>set (content_queue db). status r = ''pending'' \<longrightarrow> created_at r < now2 - hours h2 \<longrightarrow> created_at r < now - hours h"
    have "\<forall>r\<in>set (content_queue db'). \<not> is_stale (now2 - hours h2) r"
      using a by (auto simp: db' is_stale_def is_pending_def)
    then show "expire_old_queue_items db' h2 now2 = (0, db')" by (rule no_stale_noop)
  qed
  have 6: "n = int (card {i. i < length (content_queue db) \<and> status (content_queue db ! i) = ''pending'' \<and>
                       created_at (content_queue db ! i) < now - hours h})"
    by (simp add: n length_filter_conv_card is_stale_def is_pending_def)
  obtain n48 db48 where e48: "expire_old_queue_items db 48 now48 = (n48, db48)"
    by (cases "expire_old_queue_items db 48 now48") auto
  have db48: "db48 = db\<lparr>content_queue := map (\<lambda>r. if is_stale (now48 - hours 48) r then r\<lparr>status := ''expired''\<rparr> else r) (content_queue db)\<rparr>"
    using e48 by (simp add: expire_old_queue_items_def Let_def)
  have 7: "fst (cleanup_expired qm db now48) = fst (expire_old_queue_items db 48 now48)"
    by (simp add: cleanup_expired_def e48)
  have 8: "fst (snd (cleanup_expired qm db now48)) = snd (expire_old_queue_items db 48 now48)"
    by (simp add: cleanup_expired_def e48)
  show ?thesis using 1 2 3 4 5 6 7 8 by blast
qed

text \<open>
  C8 at a table of three rows, one hour of age allowed: the one stale pending row
  expires, the published row and the fresh row stay, and a second sweep finds nothing.
\<close>

theorem expire_old_queue_items_idempotent_witness:
  "expire_old_queue_items db_CAB 1 3600001500 = (1, db_CAB_expired) \<and>
   get_queue_size db_CAB - get_queue_size db_CAB_expired = 1 \<and>
   expire_old_queue_items db_CAB_expired 1 3600001500 = (0, db_CAB_expired) \<and>
   expire_old_queue_items db_CAB_expired 1 3600001600 = (0, db_CAB_expired) \<and>
   fst (cleanup_expired qm_small db_CAB 3600001500) = 0"
proof -
  have e: "expire_old_queue_items db_CAB 1 3600001500 = (1, db_CAB_expired)"
    by (simp add: expire_old_queue_items_def Let_def hours_def seconds_def is_stale_def
        is_pending_def db_CAB_def db_CAB_expired_def item_A_def item_B_def item_C_def)
  have h: "\<forall>r\<in>set (content_queue db_CAB). status r = ''pending'' \<longrightarrow>
             created_at r < 3600001600 - hours 1 \<longrightarrow> created_at r < 3600001500 - hours 1"
    by (simp add: hours_def seconds_def db_CAB_def item_A_def item_B_def item_C_def)
  have c: "fst (expire_old_queue_items db_CAB 48 3600001500) = 0"
    by (simp add: expire_old_queue_items_def Let_def hours_def seconds_def is_stale_def
        is_pending_def db_CAB_def item_A_def item_B_def item_C_def)
  show ?thesis
    using expire_old_queue_items_idempotent [OF e, of 3600001600 1 qm_small 3600001500] e h c
    by simp
qed

section \<open>Properties of the circuit breaker\<close>

lemma record_failure_count:
  "get_failure_count (record_failure st service t1 t2) service = get_failure_count st service + 1"
  by (simp add: record_failure_def get_failure_count_def Let_def)

lemma record_failure_config:
  "circuit_breaker_threshold (record_failure st service t1 t2) = circuit_breaker_threshold st \<and>
   circuit_breaker_timeout (record_failure st service t1 t2) = circuit_breaker_timeout st"
  by (simp add: record_failure_def Let_def)

lemma record_failure_circuit:
  "circuit_open (record_failure st service t1 t2) service =
     (if get_failure_count st service + 1 \<ge> circuit_breaker_threshold st then Some t2
      else circuit_open st service)"
  by (simp add: record_failure_def get_failure_count_def Let_def)

lemma record_failures_snoc:
  "record_failures st service (ts @ [(t1, t2)]) = record_failure (record_failures st service ts) service t1 t2"
  by (induction ts arbitrary: st) auto

lemma record_failures_count:
  "get_failure_count (record_failures st service ts) service = get_failure_count st service + int (length ts)"
  by (induction ts arbitrary: st) (auto simp: record_failure_count)

lemma record_failures_config:
  "circuit_breaker_threshold (record_failures st service ts) = circuit_breaker_threshold st \<and>
   circuit_breaker_timeout (record_failures st service ts) = circuit_breaker_timeout st"
  by (induction ts arbitrary: st) (auto simp: record_failure_config)

lemma record_failures_closed:
  "circuit_open st service = None \<Longrightarrow>
   get_failure_count st service + int (length ts) < circuit_breaker_threshold st \<Longrightarrow>
   circuit_open (record_failures st service ts) service = None"
proof (induction ts arbitrary: st)
  case Nil
  then show ?case by simp
next
  case (Cons p ts)
  obtain t1 t2 where p: "p = (t1, t2)" by (cases p) auto
  have "circuit_open (record_failure st service t1 t2) service = None"
    using Cons.prems by (simp add: record_failure_circuit)
  moreover have "get_failure_count (record_failure st service t1 t2) service + int (length ts)
      < circuit_breaker_threshold (record_failure st service t1 t2)"
    using Cons.prems by (simp add: record_failure_count record_failure_config)
  ultimately show ?case using Cons.IH p by simp
qed

text \<open>
  C2.  From the closed state with failure count 0, threshold 5 and timeout 300 s: the
  service stays available through fewer than five \<open>record_failure\<close> calls; after the
  fifth the count is 5 and the circuit is open since the second clock reading of that
  call, so \<open>is_available\<close> is false while fewer than 300 s have elapsed since then and
  true from 300 s on; and one \<open>record_success\<close> afterwards sets the count to 0 and
  removes the open-circuit entry, so the service is available at any time.
\<close>

theorem circuit_breaker_transition:
  assumes thr: "circuit_breaker_threshold st = 5"
    and tmo: "circuit_breaker_timeout st = 300"
    and closed: "circuit_open st service = None"
    and zero: "get_failure_count st service = 0"
  shows "(length ts < 5 \<longrightarrow> is_available (record_failures st service ts) service now) \<and>
         (length ts = 5 \<longrightarrow>
            get_failure_count (record_failures st service ts) service = 5 \<and>
            circuit_open (record_failures st service ts) service = Some (snd (last ts)) \<and>
            (now - snd (last ts) < seconds 300 \<longrightarrow> \<not> is_available (record_failures st service ts) service now) \<and>
            (now - snd (last ts) \<ge> seconds 300 \<longrightarrow> is_available (record_failures st service ts) service now) \<and>
            get_failure_count (record_success (record_failures st service ts) service) service = 0 \<and>
            circuit_open (record_success (record_failures st service ts) service) service = None \<and>
            is_available (record_success (record_failures st service ts) service) service now')"
proof (intro conjI impI)
  assume "length ts < 5"
  then have "circuit_open (record_failures st service ts) service = None"
    using closed zero thr by (intro record_failures_closed) auto
  then show "is_available (record_failures st service ts) service now"
    by (simp add: is_available_def)
next
  assume l: "length ts = 5"
  then have "ts \<noteq> []" by auto
  then obtain ts4 p where ts: "ts = ts4 @ [p]" by (metis rev_exhaust)
  obtain t1 t2 where p: "p = (t1, t2)" by (cases p) auto
  have l4: "length ts4 = 4" using l ts by simp
  let ?s4 = "record_failures st service ts4"
  have s5: "record_failures st service ts = record_failure ?s4 service t1 t2"
    by (simp add: ts p record_failures_snoc)
  have c4: "get_failure_count ?s4 service = 4" by (simp add: record_failures_count zero l4)
  have cfg: "circuit_breaker_threshold ?s4 = 5" "circuit_breaker_timeout ?s4 = 300"
    by (simp_all add: record_failures_config thr tmo)
  have lst: "snd (last ts) = t2" by (simp add: ts p)
  show c5: "get_failure_count (record_failures st service ts) service = 5"
    by (simp add: record_failures_count zero l)
  show o5: "circuit_open (record_failures st service ts) service = Some (snd (last ts))"
    by (simp add: s5 record_failure_circuit c4 cfg lst)
  have t5: "circuit_breaker_timeout (record_failures st service ts) = 300"
    by (simp add: record_failures_config tmo)
  { assume "now - snd (last ts) < seconds 300"
    then show "\<not> is_available (record_failures st service ts) service now"
      by (simp add: is_available_def o5 t5) }
  { assume "seconds 300 \<le> now - snd (last ts)"
    then show "is_available (record_failures st service ts) service now"
      by (simp add: is_available_def o5 t5) }
  show "get_failure_count (record_success (record_failures st service ts) service) service = 0"
    by (simp add: record_success_def get_failure_count_def)
  show "circuit_open (record_success (record_failures st service ts) service) service = None"
    by (simp add: record_success_def)
  show "is_available (record_success (record_failures st service ts) service) service now'"
    by (simp add: record_success_def is_available_def)
qed

text \<open>
  C2 on a fresh strategy and the service \<open>groq\<close>: five failures, the last at 10
  microseconds, close the service at 299 s and reopen it at 300 s after that.
\<close>

theorem circuit_breaker_transition_witness:
  "\<not> is_available (record_failures (APIFallbackStrategy_init True) ''groq'' [(1, 2), (3, 4), (5, 6), (7, 8), (9, 10)]) ''groq'' (seconds 299)
  \<and> is_available (record_failures (APIFallbackStrategy_init True) ''groq'' [(1, 2), (3, 4), (5, 6), (7, 8), (9, 10)]) ''groq'' (seconds 300 + 10)
  \<and> is_available (record_failures (APIFallbackStrategy_init True) ''groq'' [(1, 2), (3, 4), (5, 6), (7, 8)]) ''groq'' 9
  \<and> get_failure_count (record_success (record_failures (APIFallbackStrategy_init True) ''groq'' [(1, 2), (3, 4), (5, 6), (7, 8), (9, 10)]) ''groq'') ''groq'' = 0"
proof -
  let ?st = "APIFallbackStrategy_init True"
  have a: "circuit_breaker_threshold ?st = 5" "circuit_breaker_timeout ?st = 300"
    "circuit_open ?st ''groq'' = None" "get_failure_count ?st ''groq'' = 0"
    by (simp_all add: APIFallbackStrategy_init_def get_failure_count_def)
  show ?thesis
    using circuit_breaker_transition [OF a, of "[(1, 2), (3, 4), (5, 6), (7, 8), (9, 10)]" "seconds 299" 0]
      circuit_breaker_transition [OF a, of "[(1, 2), (3, 4), (5, 6), (7, 8), (9, 10)]" "seconds 300 + 10" 0]
      circuit_breaker_transition [OF a, of "[(1, 2), (3, 4), (5, 6), (7, 8)]" 9 0]
    by (simp add: seconds_def)
qed

section \<open>Properties of the rate limiter\<close>

lemma init_limits_cases:
  "limits (RateLimitHandler_init lg) service = None \<or>
   (\<exists>cfg. limits (RateLimitHandler_init lg) service = Some cfg \<and> window_minutes cfg = Some 1 \<and>
      (rpm cfg = Some 30 \<or> rpm cfg = Some 10))"
  by (simp add: RateLimitHandler_init_def)

lemma wait_if_needed_of_pct:
  assumes "get_usage_percentage h service now = Inr pct"
  shows "\<exists>logs sleeps. wait_if_needed h service now = Inr (logs, sleeps) \<and>
     (sleeps = [60] \<longleftrightarrow> pct \<ge> 90) \<and> (sleeps = [5] \<longleftrightarrow> 70 \<le> pct \<and> pct < 90) \<and>
     (sleeps = [] \<longleftrightarrow> pct < 70)"
  using assms by (simp add: wait_if_needed_def Let_def)

lemma usage_pct_unconfigured:
  "limits h service = None \<or> usage h service = None \<Longrightarrow> get_usage_percentage h service now = Inr 0"
  by (auto simp: get_usage_percentage_def split: option.splits)

lemma usage_pct_configured:
  assumes "limits h service = Some cfg" "usage h service = Some entry"
    "window_minutes cfg = Some 1" "rpm cfg = Some k" "k \<noteq> 0"
  shows "get_usage_percentage h service now =
     Inr (real (length (filter (\<lambda>r. r > now - minutes 1) (requests entry))) / real_of_int k * 100)"
  using assms by (simp add: get_usage_percentage_def get_or_def Let_def)

text \<open>
  C5.  On a handler whose limits are those of \<open>__init__\<close> (nothing in the source
  writes \<open>_limits\<close> afterwards), for every service, every usage table and every time:
  \<open>get_usage_percentage\<close> returns a percentage and \<open>wait_if_needed\<close> returns normally;
  it sleeps once for 60 s exactly when the percentage is at least 90, once for 5 s exactly
  when it is at least 70 and below 90, and not at all exactly when it is below 70.  For a
  configured service with recorded requests the percentage is 100 times the number of
  requests of the last minute, over the \<open>rpm\<close> limit.
\<close>

theorem wait_if_needed_policy:
  assumes "limits h = limits (RateLimitHandler_init lg)"
  shows "\<exists>pct logs sleeps.
     get_usage_percentage h service now = Inr pct \<and>
     wait_if_needed h service now = Inr (logs, sleeps) \<and>
     (sleeps = [60] \<longleftrightarrow> pct \<ge> 90) \<and> (sleeps = [5] \<longleftrightarrow> 70 \<le> pct \<and> pct < 90) \<and>
     (sleeps = [] \<longleftrightarrow> pct < 70) \<and>
     (\<forall>cfg entry. limits h service = Some cfg \<and> usage h service = Some entry \<longrightarrow>
        pct * real_of_int (the (rpm cfg)) =
          100 * real (length (filter (\<lambda>r. r > now - minutes 1) (requests entry))))"
proof -
  have ex: "\<exists>pct. get_usage_percentage h service now = Inr pct \<and>
     (\<forall>cfg entry. limits h service = Some cfg \<and> usage h service = Some entry \<longrightarrow>
        pct * real_of_int (the (rpm cfg)) =
          100 * real (length (filter (\<lambda>r. r > now - minutes 1) (requests entry))))"
  proof (cases "limits h service = None \<or> usage h service = None")
    case True
    then have "get_usage_percentage h service now = Inr 0" by (rule usage_pct_unconfigured)
    then show ?thesis using True by auto
  next
    case False
    then obtain cfg entry where le: "limits h service = Some cfg" "usage h service = Some entry"
      by auto
    have "limits (RateLimitHandler_init lg) service = Some cfg" using le assms by simp
    then have w: "window_minutes cfg = Some 1" and r: "rpm cfg = Some 30 \<or> rpm cfg = Some 10"
      using init_limits_cases [of lg service] by auto
    from r obtain k where k: "rpm cfg = Some k" "k \<noteq> 0" by auto
    have "get_usage_percentage h service now =
       Inr (real (length (filter (\<lambda>r. r > now - minutes 1) (requests entry))) / real_of_int k * 100)"
      using le w k by (rule usage_pct_configured)
    then show ?thesis using le k by auto
  qed
  then obtain pct where p: "get_usage_percentage h service now = Inr pct"
    and q: "\<forall>cfg entry. limits h service = Some cfg \<and> usage h service = Some entry \<longrightarrow>
        pct * real_of_int (the (rpm cfg)) =
          100 * real (length (filter (\<lambda>r. r > now - minutes 1) (requests entry)))"
    by blast
  from wait_if_needed_of_pct [OF p] obtain logs sleeps where
    "wait_if_needed h service now = Inr (logs, sleeps) \<and>
     (sleeps = [60] \<longleftrightarrow> pct \<ge> 90) \<and> (sleeps = [5] \<longleftrightarrow> 70 \<le> pct \<and> pct < 90) \<and>
     (sleeps = [] \<longleftrightarrow> pct < 70)" by blast
  then show ?thesis using p q by blast
qed

text \<open>
  C5 on \<open>groq\<close> (30 requests per minute), 30 s after the recorded requests: 27 requests
  are 90 percent and cost 60 s, 21 are 70 percent and cost 5 s, 10 cost nothing; and 60 s
  after them the 27 requests have left the window.
\<close>

theorem wait_if_needed_policy_witness:
  "limits (handler_with 27) = limits (RateLimitHandler_init False) \<and>
   get_usage_percentage (handler_with 27) ''groq'' (seconds 130) = Inr 90 \<and>
   wait_if_needed (handler_with 27) ''groq'' (seconds 130) = Inr ([], [60]) \<and>
   wait_if_needed (handler_with 21) ''groq'' (seconds 130) = Inr ([], [5]) \<and>
   wait_if_needed (handler_with 10) ''groq'' (seconds 130) = Inr ([], []) \<and>
   wait_if_needed (handler_with 27) ''groq'' (seconds 160) = Inr ([], [])"
proof -
  have l: "limits (handler_with 27) = limits (RateLimitHandler_init False)"
    by (simp add: handler_with_def)
  have p27: "get_usage_percentage (handler_with 27) ''groq'' (seconds 130) = Inr 90"
    by (simp add: get_usage_percentage_def handler_with_def RateLimitHandler_init_def get_or_def
        minutes_def seconds_def Let_def)
  have w27: "wait_if_needed (handler_with 27) ''groq'' (seconds 130) = Inr ([], [60])"
    unfolding wait_if_needed_def p27
    by (simp add: handler_with_def RateLimitHandler_init_def emit_def)
  have w21: "wait_if_needed (handler_with 21) ''groq'' (seconds 130) = Inr ([], [5])"
    by (simp add: wait_if_needed_def get_usage_percentage_def handler_with_def
        RateLimitHandler_init_def get_or_def minutes_def seconds_def Let_def emit_def)
  have w10: "wait_if_needed (handler_with 10) ''groq'' (seconds 130) = Inr ([], [])"
    by (simp add: wait_if_needed_def get_usage_percentage_def handler_with_def
        RateLimitHandler_init_def get_or_def minutes_def seconds_def Let_def emit_def)
  have late: "wait_if_needed (handler_with 27) ''groq'' (seconds 160) = Inr ([], [])"
    by (simp add: wait_if_needed_def get_usage_percentage_def handler_with_def
        RateLimitHandler_init_def get_or_def minutes_def seconds_def Let_def emit_def)
  show ?thesis
    using wait_if_needed_policy [OF l, of "''groq''" "seconds 130"] l p27 w27 w21 w10 late
    by simp
qed

text \<open>
  C10.  For a service that has no entry in \<open>_limits\<close> or none in \<open>_usage\<close> (no request
  was ever recorded for it), \<open>get_usage_percentage\<close> returns 0 and \<open>wait_if_needed\<close>
  returns without a sleep and without a logger call; with the limits of \<open>__init__\<close> the
  same holds for an entry whose list of requests is empty.
\<close>

theorem usage_percentage_zero:
  "(limits h service = None \<or> usage h service = None \<longrightarrow>
      get_usage_percentage h service now = Inr 0 \<and> wait_if_needed h service now = Inr ([], [])) \<and>
   (limits h = limits (RateLimitHandler_init lg) \<and> usage h service = Some entry \<and> requests entry = [] \<longrightarrow>
      get_usage_percentage h service now = Inr 0 \<and> wait_if_needed h service now = Inr ([], []))"
proof (intro conjI impI)
  assume a: "limits h service = None \<or> usage h service = None"
  then show p: "get_usage_percentage h service now = Inr 0" by (rule usage_pct_unconfigured)
  then show "wait_if_needed h service now = Inr ([], [])" by (simp add: wait_if_needed_def)
next
  assume a: "limits h = limits (RateLimitHandler_init lg) \<and> usage h service = Some entry \<and> requests entry = []"
  show p: "get_usage_percentage h service now = Inr 0"
  proof (cases "limits h service")
    case None
    then show ?thesis by (simp add: usage_pct_unconfigured)
  next
    case (Some cfg)
    then have "limits (RateLimitHandler_init lg) service = Some cfg" using a by simp
    then have w: "window_minutes cfg = Some 1" and r: "rpm cfg = Some 30 \<or> rpm cfg = Some 10"
      using init_limits_cases [of lg service] by auto
    from r obtain k where k: "rpm cfg = Some k" "k \<noteq> 0" by auto
    show ?thesis using usage_pct_configured [OF Some _ w k, of entry now] a by simp
  qed
  then show "wait_if_needed h service now = Inr ([], [])" by (simp add: wait_if_needed_def)
qed

text \<open>
  C10 on a fresh handler: \<open>reddit\<close> has no limits, \<open>groq\<close> has limits and no recorded
  request.
\<close>

theorem usage_percentage_zero_witness:
  "limits (RateLimitHandler_init True) ''reddit'' = None \<and>
   get_usage_percentage (RateLimitHandler_init True) ''reddit'' 0 = Inr 0 \<and>
   wait_if_needed (RateLimitHandler_init True) ''reddit'' 0 = Inr ([], []) \<and>
   usage (RateLimitHandler_init True) ''groq'' = None \<and>
   get_usage_percentage (RateLimitHandler_init True) ''groq'' 0 = Inr 0 \<and>
   wait_if_needed (RateLimitHandler_init True) ''groq'' 0 = Inr ([], [])"
proof -
  have a: "limits (RateLimitHandler_init True) ''reddit'' = None"
    by (simp add: RateLimitHandler_init_def)
  have b: "usage (RateLimitHandler_init True) ''groq'' = None"
    by (simp add: RateLimitHandler_init_def)
  show ?thesis
    using usage_percentage_zero [of "RateLimitHandler_init True" "''reddit''" 0]
      usage_percentage_zero [of "RateLimitHandler_init True" "''groq''" 0] a b
    by simp
qed

section \<open>Properties of the recovery manager\<close>

lemma rm_failed_eq: "rm_failed lg = \<lparr>rm_logger = lg, consecutive_failures = [''db'' \<mapsto> 5], recovery_actions = Map.empty, max_failures = 5\<rparr>"
  by (simp add: rm_failed_def recovery_record_failure_def RecoveryManager_init_def recovery_get_failure_count_def get_or_def)

lemma recovery_record_success_count:
  "recovery_get_failure_count (recovery_record_success rm component) component = 0"
  by (simp add: recovery_record_success_def recovery_get_failure_count_def get_or_def)

text \<open>
  C7 (as amended).  With \<open>max_failures = 5\<close>, for every component: below 5 consecutive
  failures \<open>attempt_recovery\<close> returns true, changes nothing and logs nothing.  At or
  above 5, with no registered action it returns false and changes nothing, and it
  reports the condition, one critical call that says that manual intervention is
  required, when the manager has a logger; without a logger it reports nothing.  With
  a registered action that returns, it returns true and the counter is 0 afterwards;
  with one that raises, it returns false and the manager, its counter included, is
  unchanged.
\<close>

theorem attempt_recovery_escalation:
  assumes "max_failures rm = 5"
  shows
  "(recovery_get_failure_count rm component < 5 \<longrightarrow> attempt_recovery rm component = (True, rm, [])) \<and>
   (recovery_get_failure_count rm component \<ge> 5 \<and> recovery_actions rm component = None \<longrightarrow>
      fst (attempt_recovery rm component) = False \<and>
      fst (snd (attempt_recovery rm component)) = rm \<and>
      (rm_logger rm \<longrightarrow>
         filter (\<lambda>c. case c of log_critical _ _ \<Rightarrow> True | _ \<Rightarrow> False) (snd (snd (attempt_recovery rm component))) =
           [log_critical [Lit ''No Recovery Available'']
              [Lit ''Component: '', Lit component, NL, Lit ''No recovery function registered.'', NL,
               Lit ''Manual intervention required.'']]) \<and>
      (\<not> rm_logger rm \<longrightarrow> snd (snd (attempt_recovery rm component)) = [])) \<and>
   (recovery_get_failure_count rm component \<ge> 5 \<and> recovery_actions rm component = Some (Inr ()) \<longrightarrow>
      fst (attempt_recovery rm component) = True \<and>
      recovery_get_failure_count (fst (snd (attempt_recovery rm component))) component = 0 \<and>
      fst (snd (attempt_recovery rm component)) = recovery_record_success rm component) \<and>
   (recovery_get_failure_count rm component \<ge> 5 \<and> recovery_actions rm component = Some (Inl e) \<longrightarrow>
      fst (attempt_recovery rm component) = False \<and>
      fst (snd (attempt_recovery rm component)) = rm \<and>
      recovery_get_failure_count (fst (snd (attempt_recovery rm component))) component =
        recovery_get_failure_count rm component)"
proof (intro conjI impI)
  assume "recovery_get_failure_count rm component < 5"
  then show "attempt_recovery rm component = (True, rm, [])"
    using assms by (simp add: attempt_recovery_def Let_def)
next
  assume a: "5 \<le> recovery_get_failure_count rm component \<and> recovery_actions rm component = None"
  then show "fst (attempt_recovery rm component) = False"
    using assms by (simp add: attempt_recovery_def Let_def)
  from a show "fst (snd (attempt_recovery rm component)) = rm"
    using assms by (simp add: attempt_recovery_def Let_def)
  { assume "rm_logger rm"
    then show "filter (\<lambda>c. case c of log_critical _ _ \<Rightarrow> True | _ \<Rightarrow> False) (snd (snd (attempt_recovery rm component))) =
           [log_critical [Lit ''No Recovery Available'']
              [Lit ''Component: '', Lit component, NL, Lit ''No recovery function registered.'', NL,
               Lit ''Manual intervention required.'']]"
      using assms a by (simp add: attempt_recovery_def Let_def emit_def) }
  { assume "\<not> rm_logger rm"
    then show "snd (snd (attempt_recovery rm component)) = []"
      using assms a by (simp add: attempt_recovery_def Let_def emit_def) }
next
  assume a: "5 \<le> recovery_get_failure_count rm component \<and> recovery_actions rm component = Some (Inr ())"
  then show "fst (attempt_recovery rm component) = True"
    using assms by (simp add: attempt_recovery_def Let_def)
  from a show s: "fst (snd (attempt_recovery rm component)) = recovery_record_success rm component"
    using assms by (simp add: attempt_recovery_def Let_def)
  show "recovery_get_failure_count (fst (snd (attempt_recovery rm component))) component = 0"
    by (simp add: s recovery_record_success_count)
next
  assume a: "5 \<le> recovery_get_failure_count rm component \<and> recovery_actions rm component = Some (Inl e)"
  then show "fst (attempt_recovery rm component) = False"
    using assms by (simp add: attempt_recovery_def Let_def)
  from a show s: "fst (snd (attempt_recovery rm component)) = rm"
    using assms by (simp add: attempt_recovery_def Let_def)
  show "recovery_get_failure_count (fst (snd (attempt_recovery rm component))) component =
        recovery_get_failure_count rm component" by (simp add: s)
qed

text \<open>
  The amended C7 on the component \<open>db\<close> after five failures, with a logger: no action,
  an action that returns and an action that raises; the component \<open>net\<close> has no
  failure.
\<close>

theorem attempt_recovery_escalation_witness:
  "max_failures (rm_failed True) = 5 \<and>
   recovery_get_failure_count (rm_failed True) ''db'' = 5 \<and>
   fst (attempt_recovery (rm_failed True) ''db'') = False \<and>
   length (snd (snd (attempt_recovery (rm_failed True) ''db''))) = 2 \<and>
   attempt_recovery (rm_failed True) ''net'' = (True, rm_failed True, []) \<and>
   fst (attempt_recovery (register_recovery (rm_failed True) ''db'' (Inr ())) ''db'') = True \<and>
   recovery_get_failure_count (fst (snd (attempt_recovery (register_recovery (rm_failed True) ''db'' (Inr ())) ''db''))) ''db'' = 0 \<and>
   fst (attempt_recovery (register_recovery (rm_failed True) ''db'' (Inl (Exception ''down''))) ''db'') = False \<and>
   recovery_get_failure_count (fst (snd (attempt_recovery (register_recovery (rm_failed True) ''db'' (Inl (Exception ''down''))) ''db''))) ''db'' = 5"
proof -
  have m: "max_failures (rm_failed True) = 5" by (simp add: rm_failed_eq)
  have c: "recovery_get_failure_count (rm_failed True) ''db'' = 5"
    by (simp add: rm_failed_eq recovery_get_failure_count_def get_or_def)
  have n: "recovery_get_failure_count (rm_failed True) ''net'' = 0"
    by (simp add: rm_failed_eq recovery_get_failure_count_def get_or_def)
  have a: "recovery_actions (rm_failed True) ''db'' = None" by (simp add: rm_failed_eq)
  have l: "length (snd (snd (attempt_recovery (rm_failed True) ''db''))) = 2"
    by (simp add: rm_failed_eq attempt_recovery_def recovery_get_failure_count_def get_or_def Let_def emit_def)
  have r1: "max_failures (register_recovery (rm_failed True) ''db'' x) = 5"
     "recovery_get_failure_count (register_recovery (rm_failed True) ''db'' x) ''db'' = 5"
     "recovery_actions (register_recovery (rm_failed True) ''db'' x) ''db'' = Some x" for x
    by (simp_all add: rm_failed_eq register_recovery_def recovery_get_failure_count_def get_or_def)
  show ?thesis
    using attempt_recovery_escalation [OF m, of "''db''"]
      attempt_recovery_escalation [OF m, of "''net''"]
      attempt_recovery_escalation [OF r1(1), of "Inr ()" "''db''"]
      attempt_recovery_escalation [OF r1(1), of "Inl (Exception ''down'')" "''db''" "Exception ''down''"]
      m c n a l r1
    by (simp add: recovery_record_success_count)
qed

text \<open>
  C7 as stated fails: a manager built without a logger (the default of \<open>__init__\<close>)
  returns false for a component with five failures and no action, and makes no report.
\<close>

theorem attempt_recovery_no_logger_counterexample:
  "recovery_get_failure_count (rm_failed False) ''db'' = 5 \<and>
   recovery_actions (rm_failed False) ''db'' = None \<and>
   attempt_recovery (rm_failed False) ''db'' = (False, rm_failed False, [])"
  by (simp add: rm_failed_eq attempt_recovery_def recovery_get_failure_count_def get_or_def Let_def emit_def)

section \<open>Properties of the fallback chain\<close>

lemma try_fallbacks_all_fail:
  "\<forall>f\<in>set fs. isl f \<Longrightarrow> fst (try_fallbacks lg service i fs) = None"
  by (induction fs arbitrary: i) (auto simp: case_prod_beta split: sum.splits)

lemma try_fallbacks_first_success:
  "\<forall>f\<in>set fs1. isl f \<Longrightarrow> fst (try_fallbacks lg service i (fs1 @ Inr v # fs2)) = Some v"
  by (induction fs1 arbitrary: i) (auto simp: case_prod_beta split: sum.splits)

lemma try_fallbacks_no_critical:
  "filter is_critical (snd (try_fallbacks lg service i fs)) = []"
  by (induction fs arbitrary: i) (auto simp: emit_def is_critical_def case_prod_beta split: sum.splits)

lemma try_fallbacks_no_logger:
  "snd (try_fallbacks False service i fs) = []"
  by (induction fs arbitrary: i) (auto simp: emit_def case_prod_beta split: sum.splits)

lemma fallback_phase_none:
  assumes "fst (try_fallbacks (fs_logger st) service 0 fs) = None"
  shows "fst (fallback_phase st logs fs service) = None \<and>
         fst (snd (fallback_phase st logs fs service)) = st \<and>
         (fs_logger st \<longrightarrow>
            snd (snd (fallback_phase st logs fs service)) =
              logs @ snd (try_fallbacks True service 0 fs) @
              [log_critical [Lit ''All Fallbacks Failed'']
                 [Lit ''Service: '', Lit service, NL,
                  Lit ''Primary + '', Num (int (length fs)), Lit '' fallbacks all failed.'', NL,
                  Lit ''Total failures: '', Num (get_failure_count st service)]]) \<and>
         (\<not> fs_logger st \<longrightarrow> snd (snd (fallback_phase st logs fs service)) = logs)"
proof (cases "try_fallbacks (fs_logger st) service 0 fs")
  case (Pair r l)
  then have r: "r = None" using assms by simp
  have l: "l = snd (try_fallbacks (fs_logger st) service 0 fs)" using Pair by simp
  have nl: "\<not> fs_logger st \<Longrightarrow> l = []"
    using try_fallbacks_no_logger [of service 0 fs] l by simp
  have yl: "fs_logger st \<Longrightarrow> l = snd (try_fallbacks True service 0 fs)"
    using l by simp
  have 1: "fst (fallback_phase st logs fs service) = None" by (simp add: fallback_phase_def Pair r)
  have 2: "fst (snd (fallback_phase st logs fs service)) = st" by (simp add: fallback_phase_def Pair r)
  have 3: "snd (snd (fallback_phase st logs fs service)) =
      logs @ l @ emit (fs_logger st) (log_critical [Lit ''All Fallbacks Failed'']
                 [Lit ''Service: '', Lit service, NL,
                  Lit ''Primary + '', Num (int (length fs)), Lit '' fallbacks all failed.'', NL,
                  Lit ''Total failures: '', Num (get_failure_count st service)])"
    by (simp add: fallback_phase_def Pair r)
  show ?thesis
  proof (cases "fs_logger st")
    case True
    then show ?thesis using 1 2 3 yl by (simp add: emit_def)
  next
    case False
    then show ?thesis using 1 2 3 nl by (simp add: emit_def)
  qed
qed

lemma fallback_phase_some:
  assumes "fst (try_fallbacks (fs_logger st) service 0 fs) = Some v"
  shows "fst (fallback_phase st logs fs service) = Some v \<and>
         fst (snd (fallback_phase st logs fs service)) = st \<and>
         snd (snd (fallback_phase st logs fs service)) = logs @ snd (try_fallbacks (fs_logger st) service 0 fs)"
proof (cases "try_fallbacks (fs_logger st) service 0 fs")
  case (Pair r l)
  then have r: "r = Some v" using assms by simp
  show ?thesis by (simp add: fallback_phase_def Pair r)
qed


lemma record_failure_logger:
  "fs_logger (record_failure st service t1 t2) = fs_logger st"
  by (simp add: record_failure_def Let_def)

lemma execute_unavailable_or_failed:
  assumes "\<not> is_available st service t0 \<or> isl primary"
  shows "\<exists>logs. execute_with_fallback st primary fs service t0 t1 t2 =
     fallback_phase (if is_available st service t0 then record_failure st service t1 t2 else st)
        logs fs service \<and> (\<not> fs_logger st \<longrightarrow> logs = []) \<and> filter is_critical logs = []"
  using assms
  by (cases primary) (auto simp: execute_with_fallback_def emit_def is_critical_def)

lemma st_open_eq:
  "st_open = \<lparr>fs_logger = True, failure_counts = [''groq'' \<mapsto> 5], last_failure = [''groq'' \<mapsto> 9],
     circuit_open = [''groq'' \<mapsto> 10], circuit_breaker_threshold = 5, circuit_breaker_timeout = 300\<rparr>"
  by (simp add: st_open_def APIFallbackStrategy_init_def record_failure_def get_failure_count_def Let_def)

text \<open>
  C6 (as amended).  For every call of \<open>execute_with_fallback\<close>:
  if the primary was skipped (circuit unavailable) or raised, and every fallback
  raises, the call returns \<open>None\<close>; with a logger its last report is the critical one
  that names the service and the number of fallbacks, and without a logger it reports
  nothing.  If the primary was skipped or raised and some fallback returns, the result
  of the first such fallback is returned, with no critical report.  In both cases the
  strategy's state is what the primary attempt left: unchanged when the primary was
  skipped, after one \<open>record_failure\<close> when it raised; no fallback touches it.  If the
  primary is available and returns, its result is returned after \<open>record_success\<close>.
\<close>

theorem execute_with_fallback_outcomes:
  "((\<not> is_available st service t0 \<or> isl primary) \<and> (\<forall>f\<in>set fallbacks. isl f) \<longrightarrow>
      fst (execute_with_fallback st primary fallbacks service t0 t1 t2) = None \<and>
      fst (snd (execute_with_fallback st primary fallbacks service t0 t1 t2)) =
        (if is_available st service t0 then record_failure st service t1 t2 else st) \<and>
      (fs_logger st \<longrightarrow>
         snd (snd (execute_with_fallback st primary fallbacks service t0 t1 t2)) \<noteq> [] \<and>
         last (snd (snd (execute_with_fallback st primary fallbacks service t0 t1 t2))) =
           log_critical [Lit ''All Fallbacks Failed'']
             [Lit ''Service: '', Lit service, NL,
              Lit ''Primary + '', Num (int (length fallbacks)), Lit '' fallbacks all failed.'', NL,
              Lit ''Total failures: '',
              Num (get_failure_count
                     (fst (snd (execute_with_fallback st primary fallbacks service t0 t1 t2))) service)]) \<and>
      (\<not> fs_logger st \<longrightarrow>
         snd (snd (execute_with_fallback st primary fallbacks service t0 t1 t2)) = [])) \<and>
   ((\<not> is_available st service t0 \<or> isl primary) \<and> fallbacks = fs1 @ Inr v # fs2 \<and>
      (\<forall>f\<in>set fs1. isl f) \<longrightarrow>
      fst (execute_with_fallback st primary fallbacks service t0 t1 t2) = Some v \<and>
      fst (snd (execute_with_fallback st primary fallbacks service t0 t1 t2)) =
        (if is_available st service t0 then record_failure st service t1 t2 else st) \<and>
      filter is_critical (snd (snd (execute_with_fallback st primary fallbacks service t0 t1 t2))) = []) \<and>
   (is_available st service t0 \<and> primary = Inr v \<longrightarrow>
      execute_with_fallback st primary fallbacks service t0 t1 t2 =
        (Some v, record_success st service, []))"
proof (intro conjI impI)
  let ?st1 = "if is_available st service t0 then record_failure st service t1 t2 else st"
  let ?R = "execute_with_fallback st primary fallbacks service t0 t1 t2"
  have lg: "fs_logger ?st1 = fs_logger st" by (simp add: record_failure_logger)
  { assume a: "(\<not> is_available st service t0 \<or> isl primary) \<and> (\<forall>f\<in>set fallbacks. isl f)"
    then obtain logs where e: "?R = fallback_phase ?st1 logs fallbacks service"
      and l0: "\<not> fs_logger st \<longrightarrow> logs = []"
      using execute_unavailable_or_failed [of st service t0 primary fallbacks t1 t2] by blast
    have n: "fst (try_fallbacks (fs_logger ?st1) service 0 fallbacks) = None"
      using a by (simp add: try_fallbacks_all_fail)
    note p = fallback_phase_none [OF n, of logs]
    show "fst ?R = None" using p e by simp
    show s: "fst (snd ?R) = ?st1" using p e by simp
    { assume y: "fs_logger st"
      have el: "snd (snd ?R) = logs @ snd (try_fallbacks True service 0 fallbacks) @
              [log_critical [Lit ''All Fallbacks Failed'']
                 [Lit ''Service: '', Lit service, NL,
                  Lit ''Primary + '', Num (int (length fallbacks)), Lit '' fallbacks all failed.'', NL,
                  Lit ''Total failures: '', Num (get_failure_count ?st1 service)]]"
        using p e y lg by simp
      show "snd (snd ?R) \<noteq> []" unfolding el by simp
      show "last (snd (snd ?R)) =
           log_critical [Lit ''All Fallbacks Failed'']
             [Lit ''Service: '', Lit service, NL,
              Lit ''Primary + '', Num (int (length fallbacks)), Lit '' fallbacks all failed.'', NL,
              Lit ''Total failures: '', Num (get_failure_count (fst (snd ?R)) service)]"
        unfolding s unfolding el by simp }
    { assume y: "\<not> fs_logger st"
      show "snd (snd ?R) = []" using p e y lg l0 by simp } }
  { assume a: "(\<not> is_available st service t0 \<or> isl primary) \<and> fallbacks = fs1 @ Inr v # fs2 \<and>
      (\<forall>f\<in>set fs1. isl f)"
    then obtain logs where e: "?R = fallback_phase ?st1 logs fallbacks service"
      and l1: "filter is_critical logs = []"
      using execute_unavailable_or_failed [of st service t0 primary fallbacks t1 t2] by blast
    have n: "fst (try_fallbacks (fs_logger ?st1) service 0 fallbacks) = Some v"
      using a by (simp add: try_fallbacks_first_success)
    note p = fallback_phase_some [OF n, of logs]
    show "fst ?R = Some v" using p e by simp
    show "fst (snd ?R) = ?st1" using p e by simp
    show "filter is_critical (snd (snd ?R)) = []"
      using p e l1 by (simp add: try_fallbacks_no_critical) }
  { assume "is_available st service t0 \<and> primary = Inr v"
    then show "?R = (Some v, record_success st service, [])"
      by (simp add: execute_with_fallback_def) }
qed

text \<open>
  The amended C6 at three calls: an open circuit and two failing fallbacks; a failing
  primary whose second fallback returns 7; a primary that returns 3.
\<close>

theorem execute_with_fallback_outcomes_witness:
  "\<not> is_available st_open ''groq'' 20 \<and>
   fst (execute_with_fallback st_open (Inr (1::nat)) [Inl (Exception ''a''), Inl (Exception ''b'')]
          ''groq'' 20 21 22) = None \<and>
   last (snd (snd (execute_with_fallback st_open (Inr (1::nat))
                     [Inl (Exception ''a''), Inl (Exception ''b'')] ''groq'' 20 21 22))) =
     log_critical [Lit ''All Fallbacks Failed'']
       [Lit ''Service: '', Lit ''groq'', NL,
        Lit ''Primary + '', Num 2, Lit '' fallbacks all failed.'', NL,
        Lit ''Total failures: '', Num 5] \<and>
   is_available (APIFallbackStrategy_init False) ''groq'' 20 \<and>
   fst (execute_with_fallback (APIFallbackStrategy_init False) (Inl (Exception ''p''))
          [Inl (Exception ''a''), Inr (7::nat)] ''groq'' 20 21 22) = Some 7 \<and>
   fst (snd (execute_with_fallback (APIFallbackStrategy_init False) (Inl (Exception ''p''))
          [Inl (Exception ''a''), Inr (7::nat)] ''groq'' 20 21 22)) =
     record_failure (APIFallbackStrategy_init False) ''groq'' 21 22 \<and>
   execute_with_fallback (APIFallbackStrategy_init False) (Inr (3::nat)) [Inr 4] ''groq'' 20 21 22 =
     (Some 3, record_success (APIFallbackStrategy_init False) ''groq'', [])"
proof -
  have u: "\<not> is_available st_open ''groq'' 20"
    by (simp add: st_open_eq is_available_def seconds_def)
  have lg: "fs_logger st_open" by (simp add: st_open_eq)
  have c: "get_failure_count st_open ''groq'' = 5" by (simp add: st_open_eq get_failure_count_def)
  have a: "is_available (APIFallbackStrategy_init False) ''groq'' 20"
    by (simp add: APIFallbackStrategy_init_def is_available_def)
  show ?thesis
    using execute_with_fallback_outcomes
        [of st_open "''groq''" 20 "Inr (1::nat)" "[Inl (Exception ''a''), Inl (Exception ''b'')]" 21 22
          "[]" 0 "[]"]
      execute_with_fallback_outcomes
        [of "APIFallbackStrategy_init False" "''groq''" 20 "Inl (Exception ''p'')"
          "[Inl (Exception ''a''), Inr (7::nat)]" 21 22 "[Inl (Exception ''a'')]" 7 "[]"]
      execute_with_fallback_outcomes
        [of "APIFallbackStrategy_init False" "''groq''" 20 "Inr (3::nat)" "[Inr 4]" 21 22 "[]" 3 "[]"]
      u lg c a
    by simp
qed

text \<open>
  C6 as stated fails: with the circuit of \<open>groq\<close> open, so that the primary is
  unavailable, and one fallback that returns 2, the call returns 2 and not \<open>None\<close>, and
  its only report is an informational one.
\<close>

theorem execute_with_fallback_unavailable_counterexample:
  "\<not> is_available st_open ''groq'' 20 \<and>
   execute_with_fallback st_open (Inr (1::nat)) [Inr 2] ''groq'' 20 21 22 =
     (Some 2, st_open,
      [log_info [Lit ''Fallback Successful'']
         [Lit ''Service: '', Lit ''groq'', NL, Lit ''Fallback #'', Num 1, Lit '' worked'']])"
  by (simp add: st_open_eq execute_with_fallback_def is_available_def seconds_def
      fallback_phase_def emit_def)

section \<open>Properties of the posting pipeline\<close>

lemma get_next_from_queue_mem:
  assumes "get_next_from_queue db = Some item"
  shows "item \<in> set (content_queue db)"
proof -
  have "item \<in> set (filter is_pending (content_queue db)) \<and>
     (\<forall>x\<in>set (filter is_pending (content_queue db)). - priority item \<le> - priority x)"
    using assms unfolding get_next_from_queue_def order_by_desc_priority_def
    by (rule scalar_take1_sort_Some)
  then show ?thesis by simp
qed

lemma statuses_of_update_rows:
  "map status (filter (\<lambda>r. row_id r = i)
      (map (\<lambda>r. if row_id r = i then r\<lparr>status := s\<rparr> else r) rows)) =
   map (\<lambda>_. s) (filter (\<lambda>r. row_id r = i) rows)"
  by (induction rows) auto

lemma statuses_of_update:
  "statuses_of (update_queue_item_status db i s) i =
     map (\<lambda>_. s) (filter (\<lambda>r. row_id r = i) (content_queue db))"
  by (simp add: statuses_of_def update_queue_item_status_def statuses_of_update_rows)

lemma set_map_const: "xs \<noteq> [] \<Longrightarrow> set (map (\<lambda>_. s) xs) = {s}"
  by (cases xs) auto

lemma statuses_of_update_set:
  assumes "item \<in> set (content_queue db)"
  shows "statuses_of (update_queue_item_status db (row_id item) s) (row_id item) \<noteq> [] \<and>
         set (statuses_of (update_queue_item_status db (row_id item) s) (row_id item)) = {s}"
proof -
  have ne: "filter (\<lambda>r. row_id r = row_id item) (content_queue db) \<noteq> []"
    using assms by (auto simp: filter_empty_conv)
  show ?thesis using ne set_map_const [OF ne, of s] by (simp add: statuses_of_update)
qed

lemma update_keeps_member:
  assumes "item \<in> set (content_queue db)"
  shows "item\<lparr>status := s\<rparr> \<in> set (content_queue (update_queue_item_status db (row_id item) s))"
proof -
  have "(\<lambda>r. if row_id r = row_id item then r\<lparr>status := s\<rparr> else r) item \<in>
        (\<lambda>r. if row_id r = row_id item then r\<lparr>status := s\<rparr> else r) ` set (content_queue db)"
    using assms by (rule imageI)
  then show ?thesis by (simp add: update_queue_item_status_def)
qed

lemma statuses_of_update_twice:
  assumes "item \<in> set (content_queue db)"
  shows "statuses_of (update_queue_item_status (update_queue_item_status db (row_id item) s1) (row_id item) s2) (row_id item) \<noteq> [] \<and>
         set (statuses_of (update_queue_item_status (update_queue_item_status db (row_id item) s1) (row_id item) s2) (row_id item)) = {s2}"
proof -
  have i: "item\<lparr>status := s1\<rparr> \<in> set (content_queue (update_queue_item_status db (row_id item) s1))"
    using assms by (rule update_keeps_member)
  show ?thesis using statuses_of_update_set [OF i, of s2] by simp
qed

lemma after_publish_Inr:
  assumes "after_publish lg env db item mid = Inr (b, db', evs)"
  shows "db' = update_queue_item_status db (row_id item) ''published'' \<or>
         db' = update_queue_item_status db (row_id item) ''rejected''"
  using assms
  by (auto simp: after_publish_def write_status_def split: if_splits option.splits sum.splits)

lemma after_publish_Inl:
  assumes "after_publish lg env db item mid = Inl (e, db1, evs)"
  shows "db1 = db \<or> db1 = update_queue_item_status db (row_id item) ''published''"
  using assms
  by (auto simp: after_publish_def write_status_def split: if_splits option.splits sum.splits)

lemma try_body_Inr:
  assumes "try_body lg env db item = Inr (b, db', evs)"
  shows "db' = update_queue_item_status db (row_id item) ''published'' \<or>
         db' = update_queue_item_status db (row_id item) ''rejected''"
  using assms
  by (auto simp: try_body_def Let_def write_status_def dest: after_publish_Inr
      split: if_splits option.splits sum.splits)

lemma try_body_Inl:
  assumes "try_body lg env db item = Inl (e, db1, evs)"
  shows "db1 = db \<or> db1 = update_queue_item_status db (row_id item) ''published''"
  using assms
  by (auto simp: try_body_def Let_def write_status_def dest: after_publish_Inl
      split: if_splits option.splits sum.splits)


lemma publish_next_Inr_cases:
  assumes "get_next_from_queue db = Some item" "publish_next lg env db = Inr (b, db', evs)"
  shows "db' = update_queue_item_status db (row_id item) ''published'' \<or>
         db' = update_queue_item_status db (row_id item) ''rejected'' \<or>
         db' = update_queue_item_status (update_queue_item_status db (row_id item) ''published'')
                 (row_id item) ''rejected''"
proof (cases "try_body lg env db item")
  case (Inr r)
  then have "try_body lg env db item = Inr (b, db', evs)"
    using assms by (simp add: publish_next_def)
  then have "db' = update_queue_item_status db (row_id item) ''published'' \<or>
         db' = update_queue_item_status db (row_id item) ''rejected''"
    by (rule try_body_Inr)
  then show ?thesis by (elim disjE) (rule disjI1, assumption, rule disjI2, rule disjI1, assumption)
next
  case (Inl t)
  obtain e db1 evs1 where t: "t = (e, db1, evs1)" by (cases t) auto
  have tb: "try_body lg env db item = Inl (e, db1, evs1)" using Inl t by simp
  have d: "db1 = db \<or> db1 = update_queue_item_status db (row_id item) ''published''"
    using tb by (rule try_body_Inl)
  have w: "write_in_handler env = None"
  proof (cases "write_in_handler env")
    case None
    then show ?thesis .
  next
    case (Some e')
    then have "publish_next lg env db = Inl e'"
      using assms(1) tb by (simp add: publish_next_def write_status_def)
    then show ?thesis using assms(2) by simp
  qed
  have "publish_next lg env db =
        Inr (False, update_queue_item_status db1 (row_id item) ''rejected'',
             evs1 @ SetStatus (row_id item) ''rejected'' #
             map Log (emit lg (log_error [Lit ''Publishing Pipeline Failed''] e)))"
    using assms(1) tb w by (simp add: publish_next_def write_status_def)
  then have e: "db' = update_queue_item_status db1 (row_id item) ''rejected''"
    using assms(2) by simp
  show ?thesis
  proof (rule disjE [OF d])
    assume "db1 = db"
    then have "db' = update_queue_item_status db (row_id item) ''rejected''" using e by simp
    then show ?thesis by (intro disjI2 disjI1)
  next
    assume "db1 = update_queue_item_status db (row_id item) ''published''"
    then have "db' = update_queue_item_status (update_queue_item_status db (row_id item) ''published'')
                 (row_id item) ''rejected''" using e by simp
    then show ?thesis by (intro disjI2)
  qed
qed

lemma next_CAB: "get_next_from_queue db_CAB = Some item_A"
  by (simp add: get_next_from_queue_def order_by_desc_priority_def scalar_one_or_none_def
        is_pending_def db_CAB_def item_A_def item_B_def item_C_def)

lemma next_D: "get_next_from_queue db_D = Some item_D"
  by (simp add: get_next_from_queue_def order_by_desc_priority_def scalar_one_or_none_def
        is_pending_def db_D_def item_D_def)

lemma upd_CAB_rejected:
  "update_queue_item_status db_CAB (row_id item_A) ''rejected'' = db_CAB_rejected"
  by (simp add: update_queue_item_status_def db_CAB_def db_CAB_rejected_def item_A_def item_B_def item_C_def)

lemma upd_CAB_published_rejected:
  "update_queue_item_status (update_queue_item_status db_CAB (row_id item_A) ''published'')
      (row_id item_A) ''rejected'' = db_CAB_rejected"
  by (simp add: update_queue_item_status_def db_CAB_def db_CAB_rejected_def item_A_def item_B_def item_C_def)

lemma try_save_fails:
  "try_body True (env_ok\<lparr>save_post := \<lambda>mid m. Inl (Exception ''store'')\<rparr>) db_CAB item_A =
     Inl (Exception ''store'', update_queue_item_status db_CAB (row_id item_A) ''published'',
          [SetStatus 1 ''published''])"
  by (simp add: try_body_def after_publish_def write_status_def env_ok_def get_or_def truthy_int_def
      Let_def item_A_def text_meme_def)

lemma try_publish_fails:
  "try_body True (env_ok\<lparr>publish_text := \<lambda>t. Inl (Exception ''net'')\<rparr>) db_CAB item_A =
     Inl (Exception ''net'', db_CAB, [])"
  by (simp add: try_body_def env_ok_def get_or_def Let_def item_A_def text_meme_def)

lemma try_render_fails:
  "try_body True (env_ok\<lparr>generate := \<lambda>m. Inl (Exception ''render'')\<rparr>) db_D item_D =
     Inl (Exception ''render'', db_D, [])"
  by (simp add: try_body_def env_ok_def get_or_def Let_def item_D_def truthy_str_def)

text \<open>
  C3 (as amended).  Let \<open>publish_next\<close> dequeue \<open>item\<close>.
  Whenever \<open>publish_next\<close> returns, the item is in the store with status published or
  rejected, never pending.  If the store accepts the handler's status write,
  \<open>publish_next\<close> always returns, whatever the renderer, the publisher and \<open>save_post\<close>
  do; and when the body of the \<open>try\<close> raises \<open>e\<close>, the handler sets the item to rejected
  and only then logs \<open>e\<close>, and the result is false.  The body raises when the renderer
  raises, when the publisher raises (text or image), and, after a delivery, when
  \<open>save_post\<close> raises; in the last case the item had already been set to published.
\<close>

theorem publish_next_rejects_on_exception:
  assumes "get_next_from_queue db = Some item"
  shows
  "(\<forall>b db' evs. publish_next lg env db = Inr (b, db', evs) \<longrightarrow>
      statuses_of db' (row_id item) \<noteq> [] \<and>
      set (statuses_of db' (row_id item)) \<subseteq> {''published'', ''rejected''}) \<and>
   (write_in_handler env = None \<longrightarrow> (\<exists>r. publish_next lg env db = Inr r)) \<and>
   (\<forall>e db1 evs1. try_body lg env db item = Inl (e, db1, evs1) \<and> write_in_handler env = None \<longrightarrow>
      publish_next lg env db =
        Inr (False, update_queue_item_status db1 (row_id item) ''rejected'',
             evs1 @ SetStatus (row_id item) ''rejected'' #
             map Log (emit lg (log_error [Lit ''Publishing Pipeline Failed''] e))) \<and>
      set (statuses_of (update_queue_item_status db1 (row_id item) ''rejected'') (row_id item)) =
        {''rejected''}) \<and>
   (\<forall>e. get_or (mtype (meme_data item)) ''text_only'' \<noteq> ''text_only'' \<and>
        \<not> truthy_str (image_path (meme_data item)) \<and> generate env (meme_data item) = Inl e \<longrightarrow>
        try_body lg env db item = Inl (e, db, [])) \<and>
   (\<forall>e. get_or (mtype (meme_data item)) ''text_only'' = ''text_only'' \<and>
        get_or (meme_text (meme_data item)) [] \<noteq> [] \<and>
        publish_text env (get_or (meme_text (meme_data item)) []) = Inl e \<longrightarrow>
        try_body lg env db item = Inl (e, db, [])) \<and>
   (\<forall>e. get_or (mtype (meme_data item)) ''text_only'' \<noteq> ''text_only'' \<and>
        truthy_str (image_path (meme_data item)) \<and>
        publish_image env (the (image_path (meme_data item))) (get_or (caption (meme_data item)) []) = Inl e \<longrightarrow>
        try_body lg env db item = Inl (e, db, [])) \<and>
   (\<forall>e mid. truthy_int mid \<and> write_in_try env = None \<and>
        save_post env (the mid) (meme_data item) = Inl e \<longrightarrow>
        after_publish lg env db item mid =
          Inl (e, update_queue_item_status db (row_id item) ''published'',
               [SetStatus (row_id item) ''published'']))"
proof -
  have mem: "item \<in> set (content_queue db)" using assms by (rule get_next_from_queue_mem)
  have 1: "\<forall>b db' evs. publish_next lg env db = Inr (b, db', evs) \<longrightarrow>
      statuses_of db' (row_id item) \<noteq> [] \<and>
      set (statuses_of db' (row_id item)) \<subseteq> {''published'', ''rejected''}"
  proof (intro allI impI)
    fix b db' evs assume r: "publish_next lg env db = Inr (b, db', evs)"
    have c: "db' = update_queue_item_status db (row_id item) ''published'' \<or>
         db' = update_queue_item_status db (row_id item) ''rejected'' \<or>
         db' = update_queue_item_status (update_queue_item_status db (row_id item) ''published'')
                 (row_id item) ''rejected''"
      using assms r by (rule publish_next_Inr_cases)
    have "statuses_of db' (row_id item) \<noteq> [] \<and>
       (set (statuses_of db' (row_id item)) = {''published''} \<or>
        set (statuses_of db' (row_id item)) = {''rejected''})"
    proof (rule disjE [OF c])
      assume "db' = update_queue_item_status db (row_id item) ''published''"
      then show ?thesis using statuses_of_update_set [OF mem, of "''published''"] by simp
    next
      assume "db' = update_queue_item_status db (row_id item) ''rejected'' \<or>
         db' = update_queue_item_status (update_queue_item_status db (row_id item) ''published'')
                 (row_id item) ''rejected''"
      then show ?thesis
      proof
        assume "db' = update_queue_item_status db (row_id item) ''rejected''"
        then show ?thesis using statuses_of_update_set [OF mem, of "''rejected''"] by simp
      next
        assume "db' = update_queue_item_status (update_queue_item_status db (row_id item) ''published'')
                 (row_id item) ''rejected''"
        then show ?thesis
          using statuses_of_update_twice [OF mem, of "''published''" "''rejected''"] by simp
      qed
    qed
    then show "statuses_of db' (row_id item) \<noteq> [] \<and>
      set (statuses_of db' (row_id item)) \<subseteq> {''published'', ''rejected''}"
      by (elim conjE disjE) simp_all
  qed
  have 2: "write_in_handler env = None \<longrightarrow> (\<exists>r. publish_next lg env db = Inr r)"
  proof
    assume w: "write_in_handler env = None"
    show "\<exists>r. publish_next lg env db = Inr r"
    proof (cases "try_body lg env db item")
      case (Inr r)
      have "publish_next lg env db = Inr r" using assms Inr by (simp add: publish_next_def)
      then show ?thesis by (rule exI)
    next
      case (Inl t)
      obtain e db1 evs1 where t: "t = (e, db1, evs1)" by (cases t) auto
      have "publish_next lg env db =
        Inr (False, update_queue_item_status db1 (row_id item) ''rejected'',
             evs1 @ SetStatus (row_id item) ''rejected'' #
             map Log (emit lg (log_error [Lit ''Publishing Pipeline Failed''] e)))"
        using assms Inl t w by (simp add: publish_next_def write_status_def)
      then show ?thesis by (rule exI)
    qed
  qed
  have 3: "\<forall>e db1 evs1. try_body lg env db item = Inl (e, db1, evs1) \<and> write_in_handler env = None \<longrightarrow>
      publish_next lg env db =
        Inr (False, update_queue_item_status db1 (row_id item) ''rejected'',
             evs1 @ SetStatus (row_id item) ''rejected'' #
             map Log (emit lg (log_error [Lit ''Publishing Pipeline Failed''] e))) \<and>
      set (statuses_of (update_queue_item_status db1 (row_id item) ''rejected'') (row_id item)) =
        {''rejected''}"
  proof (intro allI impI)
    fix e db1 evs1
    assume a: "try_body lg env db item = Inl (e, db1, evs1) \<and> write_in_handler env = None"
    then have d: "db1 = db \<or> db1 = update_queue_item_status db (row_id item) ''published''"
      using try_body_Inl by blast
    have p: "publish_next lg env db =
        Inr (False, update_queue_item_status db1 (row_id item) ''rejected'',
             evs1 @ SetStatus (row_id item) ''rejected'' #
             map Log (emit lg (log_error [Lit ''Publishing Pipeline Failed''] e)))"
      using a assms by (simp add: publish_next_def write_status_def)
    have q: "set (statuses_of (update_queue_item_status db1 (row_id item) ''rejected'') (row_id item)) =
        {''rejected''}"
    proof (rule disjE [OF d])
      assume "db1 = db"
      then show ?thesis using statuses_of_update_set [OF mem, of "''rejected''"] by simp
    next
      assume "db1 = update_queue_item_status db (row_id item) ''published''"
      then show ?thesis
        using statuses_of_update_twice [OF mem, of "''published''" "''rejected''"] by simp
    qed
    show "publish_next lg env db =
        Inr (False, update_queue_item_status db1 (row_id item) ''rejected'',
             evs1 @ SetStatus (row_id item) ''rejected'' #
             map Log (emit lg (log_error [Lit ''Publishing Pipeline Failed''] e))) \<and>
      set (statuses_of (update_queue_item_status db1 (row_id item) ''rejected'') (row_id item)) =
        {''rejected''}" by (rule conjI [OF p q])
  qed
  have 4: "\<forall>e. get_or (mtype (meme_data item)) ''text_only'' \<noteq> ''text_only'' \<and>
        \<not> truthy_str (image_path (meme_data item)) \<and> generate env (meme_data item) = Inl e \<longrightarrow>
        try_body lg env db item = Inl (e, db, [])"
    by (simp add: try_body_def Let_def)
  have 5: "\<forall>e. get_or (mtype (meme_data item)) ''text_only'' = ''text_only'' \<and>
        get_or (meme_text (meme_data item)) [] \<noteq> [] \<and>
        publish_text env (get_or (meme_text (meme_data item)) []) = Inl e \<longrightarrow>
        try_body lg env db item = Inl (e, db, [])"
    by (simp add: try_body_def Let_def)
  have 6: "\<forall>e. get_or (mtype (meme_data item)) ''text_only'' \<noteq> ''text_only'' \<and>
        truthy_str (image_path (meme_data item)) \<and>
        publish_image env (the (image_path (meme_data item))) (get_or (caption (meme_data item)) []) = Inl e \<longrightarrow>
        try_body lg env db item = Inl (e, db, [])"
    by (simp add: try_body_def Let_def)
  have 7: "\<forall>e mid. truthy_int mid \<and> write_in_try env = None \<and>
        save_post env (the mid) (meme_data item) = Inl e \<longrightarrow>
        after_publish lg env db item mid =
          Inl (e, update_queue_item_status db (row_id item) ''published'',
               [SetStatus (row_id item) ''published''])"
    by (simp add: after_publish_def write_status_def)
  show ?thesis
    by (rule conjI [OF 1 conjI [OF 2 conjI [OF 3 conjI [OF 4 conjI [OF 5 conjI [OF 6 7]]]]]])
qed

text \<open>
  The amended C3 at three failures, with a logger: \<open>save_post\<close> raises after the text of \<open>item_A\<close>
  was delivered, the publisher raises on \<open>item_A\<close>, and the renderer raises on the
  drake meme.  Each time the item ends rejected, and the status write precedes the
  logger call.
\<close>

theorem publish_next_rejects_on_exception_witness:
  "get_next_from_queue db_CAB = Some item_A \<and>
   publish_next True (env_ok\<lparr>save_post := \<lambda>mid m. Inl (Exception ''store'')\<rparr>) db_CAB =
     Inr (False, db_CAB_rejected,
          [SetStatus 1 ''published'', SetStatus 1 ''rejected'',
           Log (log_error [Lit ''Publishing Pipeline Failed''] (Exception ''store''))]) \<and>
   publish_next True (env_ok\<lparr>publish_text := \<lambda>t. Inl (Exception ''net'')\<rparr>) db_CAB =
     Inr (False, db_CAB_rejected,
          [SetStatus 1 ''rejected'',
           Log (log_error [Lit ''Publishing Pipeline Failed''] (Exception ''net''))]) \<and>
   statuses_of db_CAB_rejected 1 = [''rejected''] \<and>
   get_next_from_queue db_D = Some item_D \<and>
   publish_next True (env_ok\<lparr>generate := \<lambda>m. Inl (Exception ''render'')\<rparr>) db_D =
     Inr (False, db_D\<lparr>content_queue := [item_D\<lparr>status := ''rejected''\<rparr>]\<rparr>,
          [SetStatus 4 ''rejected'',
           Log (log_error [Lit ''Publishing Pipeline Failed''] (Exception ''render''))])"
proof -
  have h: "write_in_handler (env_ok\<lparr>save_post := x\<rparr>) = None"
    "write_in_handler (env_ok\<lparr>publish_text := y\<rparr>) = None"
    "write_in_handler (env_ok\<lparr>generate := z\<rparr>) = None" for x y z
    by (simp_all add: env_ok_def)
  have s: "statuses_of db_CAB_rejected 1 = [''rejected'']"
    by (simp add: statuses_of_def db_CAB_rejected_def item_A_def item_B_def item_C_def)
  have u: "update_queue_item_status db_D (row_id item_D) ''rejected'' =
      db_D\<lparr>content_queue := [item_D\<lparr>status := ''rejected''\<rparr>]\<rparr>"
    by (simp add: update_queue_item_status_def db_D_def)
  have i: "row_id item_A = 1" "row_id item_D = 4" by (simp_all add: item_A_def item_D_def)
  show ?thesis
    using publish_next_rejects_on_exception [OF next_CAB, of True
        "env_ok\<lparr>save_post := \<lambda>mid m. Inl (Exception ''store'')\<rparr>"]
      publish_next_rejects_on_exception [OF next_CAB, of True
        "env_ok\<lparr>publish_text := \<lambda>t. Inl (Exception ''net'')\<rparr>"]
      publish_next_rejects_on_exception [OF next_D, of True
        "env_ok\<lparr>generate := \<lambda>m. Inl (Exception ''render'')\<rparr>"]
      try_save_fails try_publish_fails try_render_fails next_CAB next_D h s u i
      upd_CAB_rejected upd_CAB_published_rejected
    by (simp add: emit_def)
qed

text \<open>
  C3 as stated fails: the publisher raises on \<open>item_A\<close> and the store then refuses the
  handler's status write.  The second exception leaves \<open>publish_next\<close>, no status was
  written, and the item is still pending.
\<close>

theorem publish_next_handler_write_counterexample:
  "get_next_from_queue db_CAB = Some item_A \<and>
   try_body True
     (env_ok\<lparr>publish_text := \<lambda>t. Inl (Exception ''net''),
             write_in_handler := Some (Exception ''db down'')\<rparr>) db_CAB item_A =
     Inl (Exception ''net'', db_CAB, []) \<and>
   publish_next True
     (env_ok\<lparr>publish_text := \<lambda>t. Inl (Exception ''net''),
             write_in_handler := Some (Exception ''db down'')\<rparr>) db_CAB =
     Inl (Exception ''db down'') \<and>
   statuses_of db_CAB (row_id item_A) = [''pending'']"
proof -
  have n: "get_next_from_queue db_CAB = Some item_A"
    by (simp add: get_next_from_queue_def order_by_desc_priority_def scalar_one_or_none_def
        is_pending_def db_CAB_def item_A_def item_B_def item_C_def)
  have t: "try_body True
     (env_ok\<lparr>publish_text := \<lambda>t. Inl (Exception ''net''),
             write_in_handler := Some (Exception ''db down'')\<rparr>) db_CAB item_A =
     Inl (Exception ''net'', db_CAB, [])"
    by (simp add: try_body_def env_ok_def get_or_def Let_def item_A_def text_meme_def)
  have w: "write_in_handler
     (env_ok\<lparr>publish_text := \<lambda>t. Inl (Exception ''net''),
             write_in_handler := Some (Exception ''db down'')\<rparr>) = Some (Exception ''db down'')"
    by simp
  have p: "publish_next True
     (env_ok\<lparr>publish_text := \<lambda>t. Inl (Exception ''net''),
             write_in_handler := Some (Exception ''db down'')\<rparr>) db_CAB =
     Inl (Exception ''db down'')"
    by (simp add: publish_next_def n t w write_status_def)
  have s: "statuses_of db_CAB (row_id item_A) = [''pending'']"
    by (simp add: statuses_of_def db_CAB_def item_A_def item_B_def item_C_def)
  show ?thesis by (rule conjI [OF n conjI [OF t conjI [OF p s]]])
qed

end
